theory Spec2Isabelle
  imports Complex_Main
begin

section \<open>Data model\<close>

text \<open>
  The enumerations of \<^verbatim>\<open>app/models/trip.py\<close> and \<^verbatim>\<open>app/models/booking.py\<close>, and the
  transaction status of a payment attempt as \<^verbatim>\<open>app/routes/payments.py\<close> uses it.
\<close>

datatype TripStatus = SCHEDULED | BOARDING | IN_TRANSIT | TRIP_COMPLETED | TRIP_CANCELLED

datatype SeatClass = ECONOMY | BUSINESS | FIRST_CLASS

datatype SeatStatus = AVAILABLE | BOOKED | BLOCKED

datatype BookingStatus = PENDING | CONFIRMED | CANCELLED | COMPLETED

datatype PaymentStatus = UNPAID | PAID | REFUNDED | FAILED

datatype TransactionStatus =
  TX_INITIATED | TX_PROCESSING | TX_SUCCESS | TX_FAILED | TX_CANCELLED | TX_REFUNDED

text \<open>
  The rows of the tables (a payment attempt with the columns the payment routes use).
  Primary and foreign keys are Python integers, timestamps are
  points on an integer time line, \<^verbatim>\<open>Numeric\<close> columns hold exact decimals (rationals),
  a nullable column is an \<open>option\<close>. Columns that no operation below reads (passenger
  contact fields, references, route, operator, timestamps of the row) are left out.
\<close>

record User =
  User_id :: int
  User_is_active :: bool

record Trip =
  Trip_id :: int
  departure_time :: int
  base_fare :: rat
  total_seats :: int
  available_seats :: int
  Trip_status :: TripStatus

record Seat =
  Seat_id :: int
  seat_number :: string
  seat_class :: SeatClass
  Seat_status :: SeatStatus
  price_multiplier :: rat
  Seat_trip_id :: int
  Seat_booking_id :: "int option"

record Booking =
  Booking_id :: int
  Booking_user_id :: int
  Booking_trip_id :: int
  promo_code_id :: "int option"
  subtotal :: rat
  discount_amount :: rat
  total_amount :: rat
  booking_status :: BookingStatus
  payment_status :: PaymentStatus
  num_seats :: int

record PromoCode =
  PromoCode_id :: int
  code :: string
  discount_percentage :: rat
  max_discount_amount :: "rat option"
  min_purchase_amount :: "rat option"
  usage_limit :: "int option"
  used_count :: int
  usage_per_user :: "int option"
  valid_from :: int
  valid_until :: int
  is_active :: bool

record Payment =
  Payment_id :: int
  Payment_booking_id :: int
  Payment_user_id :: int
  Payment_status :: TransactionStatus

text \<open>The database: one list of rows per table, in insertion order.\<close>

record database =
  users :: "User list"
  trips :: "Trip list"
  seats :: "Seat list"
  bookings :: "Booking list"
  promo_codes :: "PromoCode list"
  payments :: "Payment list"

text \<open>
  The failures the routes answer with. Each constructor is one \<^verbatim>\<open>return jsonify({'error': ...})\<close>
  of the source; \<open>InternalError\<close> is the \<^verbatim>\<open>except Exception\<close> branch, which rolls the
  session back.
\<close>

datatype error =
    UserInactive
  | NoSeatSelected
  | DuplicateSeatIds
  | TripNotFound
  | TripNotBookable TripStatus
  | TripDeparted
  | SeatsNotFound "int list"
  | SeatUnavailable "(string \<times> SeatStatus) list"
  | InsufficientCapacity
  | InvalidPromoCode
  | PromoInactive
  | PromoNotYetValid
  | PromoExpired
  | PromoUsageLimitReached
  | PromoIneligible int
  | PromoMinimumNotMet rat
  | BookingNotFound
  | Unauthorized
  | AlreadyCancelled
  | AlreadyCompleted
  | BookingCancelled
  | InvalidPaymentStatus
  | InvalidBookingStatus
  | SeatsNoLongerAvailable
  | SeatNotFound
  | SeatInUse
  | InvalidSeatStatus
  | InvalidSeatClass
  | InvalidPriceMultiplier
  | NoValidFields
  | AlreadyPaid
  | PaymentNotFound
  | PaymentAlreadyProcessed TransactionStatus
  | InternalError

section \<open>Python values\<close>

subsection \<open>Truthiness\<close>

text \<open>
  \<^verbatim>\<open>if x:\<close> on a nullable column: \<^verbatim>\<open>None\<close> is false, and so is a zero
  (\<^verbatim>\<open>Decimal('0.00')\<close>, the integer \<^verbatim>\<open>0\<close>).
\<close>

fun truthy :: "'a::zero option \<Rightarrow> bool" where
  "truthy None = False"
| "truthy (Some v) = (v \<noteq> 0)"

subsection \<open>Floats\<close>

text \<open>
  A Python \<^verbatim>\<open>float\<close> is an IEEE 754 binary64 number. It is modelled by the rational
  it denotes, and every float operation rounds its exact result to the nearest binary64
  number, a tie going to the even significand. Amounts are \<^verbatim>\<open>Numeric(10, 2)\<close> columns
  and percentages are at most 100, so the exponent stays far from the overflow and the
  subnormal range, and neither infinities nor subnormal numbers are modelled.
\<close>

definition round_half_even :: "rat \<Rightarrow> int" where
  "round_half_even x =
     (let f = \<lfloor>x\<rfloor>; d = x - of_int f in
      if d < 1 / 2 then f else if 1 / 2 < d then f + 1 else if even f then f else f + 1)"

fun bit_length :: "nat \<Rightarrow> nat" where
  "bit_length n = (if n = 0 then 0 else Suc (bit_length (n div 2)))"

text \<open>The exponent \<open>\<lfloor>log\<^sub>2 q\<rfloor>\<close> of a positive rational.\<close>

definition ilog2 :: "rat \<Rightarrow> int" where
  "ilog2 q =
     (if 1 \<le> q then int (bit_length (nat \<lfloor>q\<rfloor>)) - 1
      else - int (bit_length (nat (\<lceil>1 / q\<rceil> - 1))))"

definition pow2 :: "int \<Rightarrow> rat" where
  "pow2 e = (if 0 \<le> e then 2 ^ nat e else 1 / 2 ^ nat (- e))"

text \<open>The nearest binary64 number: a 53 bit significand, ties to even.\<close>

definition binary64 :: "rat \<Rightarrow> rat" where
  "binary64 q =
     (if q = 0 then 0
      else let e = ilog2 \<bar>q\<bar> - 52 in of_int (round_half_even (q / pow2 e)) * pow2 e)"

text \<open>
  \<^verbatim>\<open>round(x, 2)\<close> on a float: CPython prints the exact value of \<open>x\<close> correctly rounded to
  two decimal places (to the nearest hundredth, an exact tie going to the even one) and
  reads the decimal back as a float.
\<close>

definition py_round2 :: "rat \<Rightarrow> rat" where
  "py_round2 x = binary64 (of_int (round_half_even (x * 100)) / 100)"

text \<open>
  \<^verbatim>\<open>sum(...)\<close> over floats: the running total starts at the integer 0 and each addition
  rounds (the left to right loop of CPython before 3.12).
\<close>

definition py_sum :: "rat list \<Rightarrow> rat" where
  "py_sum xs = foldl (\<lambda>acc x. binary64 (acc + x)) 0 xs"

section \<open>Promo code engine\<close>

text \<open>\<^verbatim>\<open>PromoCode.is_valid\<close>, with \<^verbatim>\<open>datetime.utcnow()\<close> passed in as \<open>now\<close>.\<close>

definition is_valid :: "int \<Rightarrow> PromoCode \<Rightarrow> error option" where
  "is_valid now self =
     (if \<not> is_active self then Some PromoInactive
      else if now < valid_from self then Some PromoNotYetValid
      else if valid_until self < now then Some PromoExpired
      else (case usage_limit self of
              None \<Rightarrow> None
            | Some l \<Rightarrow> if l \<le> used_count self then Some PromoUsageLimitReached else None))"

text \<open>
  \<^verbatim>\<open>PromoCode.check_user_eligibility\<close>: the query counts the bookings of the user that
  reference the code, whatever their status.
\<close>

definition user_usage :: "Booking list \<Rightarrow> PromoCode \<Rightarrow> int \<Rightarrow> int" where
  "user_usage bs self user_id =
     int (length (filter (\<lambda>b. Booking_user_id b = user_id
                              \<and> promo_code_id b = Some (PromoCode_id self)) bs))"

definition check_user_eligibility :: "Booking list \<Rightarrow> PromoCode \<Rightarrow> int \<Rightarrow> error option" where
  "check_user_eligibility bs self user_id =
     (case usage_per_user self of
        None \<Rightarrow> None
      | Some k \<Rightarrow>
          if k \<le> user_usage bs self user_id
          then Some (PromoIneligible (user_usage bs self user_id)) else None)"

text \<open>
  \<^verbatim>\<open>PromoCode.calculate_discount\<close>. The minimum and the cap are \<^verbatim>\<open>Decimal\<close> columns
  tested for truthiness and converted with \<^verbatim>\<open>float(...)\<close>; the percentage is divided
  by 100 and multiplied in float arithmetic; the result is \<^verbatim>\<open>round(discount, 2)\<close>.
\<close>

definition calculate_discount :: "PromoCode \<Rightarrow> rat \<Rightarrow> rat" where
  "calculate_discount self amount =
     (if truthy (min_purchase_amount self)
         \<and> amount < binary64 (case min_purchase_amount self of Some m \<Rightarrow> m | None \<Rightarrow> 0)
      then 0
      else
        let discount = binary64 (binary64 amount * binary64 (binary64 (discount_percentage self) / 100));
            discount = (case max_discount_amount self of
                          None \<Rightarrow> discount
                        | Some c \<Rightarrow> if c \<noteq> 0 then min discount (binary64 c) else discount)
        in py_round2 discount)"

section \<open>The session: queries and row updates\<close>

text \<open>
  \<^verbatim>\<open>Model.query.get(pk)\<close> and \<^verbatim>\<open>filter_by(...).first()\<close> return the first matching row.
  Assigning to an attribute of a loaded object updates its row at the commit;
  \<open>update_where\<close> is that update for the rows selected by a predicate. A new row gets
  the next integer primary key.
\<close>

definition query_get :: "('r \<Rightarrow> int) \<Rightarrow> 'r list \<Rightarrow> int \<Rightarrow> 'r option" where
  "query_get pk rows i = find (\<lambda>r. pk r = i) rows"

definition update_where :: "('r \<Rightarrow> bool) \<Rightarrow> ('r \<Rightarrow> 'r) \<Rightarrow> 'r list \<Rightarrow> 'r list" where
  "update_where P f rows = map (\<lambda>r. if P r then f r else r) rows"

definition next_id :: "int list \<Rightarrow> int" where
  "next_id ids = fold max ids 0 + 1"

text \<open>The relationship \<^verbatim>\<open>booking.seats\<close>: the seats whose foreign key is the booking.\<close>

definition Booking_seats :: "database \<Rightarrow> int \<Rightarrow> Seat list" where
  "Booking_seats db booking_id = filter (\<lambda>s. Seat_booking_id s = Some booking_id) (seats db)"

section \<open>Booking lifecycle (\<^verbatim>\<open>bookings.py\<close>)\<close>

text \<open>\<^verbatim>\<open>validate_seat_selection\<close> of \<^verbatim>\<open>app/utils/validators.py\<close>, on a list.\<close>

definition validate_seat_selection :: "int list \<Rightarrow> error option" where
  "validate_seat_selection seat_ids =
     (if length seat_ids = 0 then Some NoSeatSelected
      else if length seat_ids \<noteq> length (remdups seat_ids) then Some DuplicateSeatIds
      else None)"

text \<open>\<^verbatim>\<open>Seat.calculate_price\<close>: the product of two decimals, converted to a float.\<close>

definition calculate_price :: "Trip \<Rightarrow> Seat \<Rightarrow> rat" where
  "calculate_price trip self = binary64 (base_fare trip * price_multiplier self)"

text \<open>
  The promo block of \<^verbatim>\<open>create_booking\<close> (lines 133 to 161): no code gives no promo
  and a zero discount; otherwise the code must exist, be valid now, be open to the user
  and have its minimum purchase met by the subtotal (a float compared with a decimal).
\<close>

definition apply_promo ::
  "int \<Rightarrow> database \<Rightarrow> int \<Rightarrow> string \<Rightarrow> rat \<Rightarrow> error + (PromoCode option \<times> rat)" where
  "apply_promo now db current_user_id promo_code_str sub =
     (if promo_code_str = [] then Inr (None, 0)
      else
        case find (\<lambda>p. code p = promo_code_str) (promo_codes db) of
          None \<Rightarrow> Inl InvalidPromoCode
        | Some promo_code \<Rightarrow>
            (case is_valid now promo_code of
               Some e \<Rightarrow> Inl e
             | None \<Rightarrow>
                 (case check_user_eligibility (bookings db) promo_code current_user_id of
                    Some e \<Rightarrow> Inl e
                  | None \<Rightarrow>
                      (case min_purchase_amount promo_code of
                         None \<Rightarrow> Inr (Some promo_code, calculate_discount promo_code sub)
                       | Some m \<Rightarrow>
                           if m \<noteq> 0 \<and> sub < m then Inl (PromoMinimumNotMet m)
                           else Inr (Some promo_code, calculate_discount promo_code sub)))))"

text \<open>
  The seats a request names on a trip:
  \<^verbatim>\<open>Seat.query.filter(Seat.id.in_(seat_ids), Seat.trip_id == trip_id).all()\<close>.
\<close>

definition requested :: "int \<Rightarrow> int list \<Rightarrow> Seat \<Rightarrow> bool" where
  "requested trip_id seat_ids s = (Seat_id s \<in> set seat_ids \<and> Seat_trip_id s = trip_id)"

text \<open>
  The writes of \<^verbatim>\<open>create_booking\<close> (lines 166 to 199): the booking row is built and
  flushed, which gives it its key; the seats found are booked and point back to it; the
  counter of the trip is lowered; the usage count of an applied promo code is raised.
\<close>

definition new_booking ::
  "database \<Rightarrow> int \<Rightarrow> int \<Rightarrow> int list \<Rightarrow> rat \<Rightarrow> PromoCode option \<Rightarrow> rat \<Rightarrow> Booking" where
  "new_booking db current_user_id trip_id seat_ids sub promo_code discount =
     \<lparr> Booking_id = next_id (map Booking_id (bookings db)),
       Booking_user_id = current_user_id,
       Booking_trip_id = trip_id,
       promo_code_id = map_option PromoCode_id promo_code,
       subtotal = sub,
       discount_amount = discount,
       total_amount = py_round2 (binary64 (sub - discount)),
       booking_status = CONFIRMED,
       payment_status = UNPAID,
       num_seats = int (length seat_ids) \<rparr>"

definition reserve :: "Booking \<Rightarrow> int \<Rightarrow> int list \<Rightarrow> PromoCode option \<Rightarrow> database \<Rightarrow> database" where
  "reserve booking trip_id seat_ids promo_code db =
     (let db1 = db\<lparr> bookings := bookings db @ [booking] \<rparr>;
          db2 = db1\<lparr> seats := update_where (requested trip_id seat_ids)
                   (\<lambda>s. s\<lparr> Seat_status := BOOKED, Seat_booking_id := Some (Booking_id booking) \<rparr>)
                   (seats db1) \<rparr>;
          db3 = db2\<lparr> trips := update_where (\<lambda>t. Trip_id t = trip_id)
                   (\<lambda>t. t\<lparr> available_seats := available_seats t - int (length seat_ids) \<rparr>)
                   (trips db2) \<rparr>
      in case promo_code of
           None \<Rightarrow> db3
         | Some p \<Rightarrow>
             db3\<lparr> promo_codes := update_where (\<lambda>q. PromoCode_id q = PromoCode_id p)
                    (\<lambda>q. q\<lparr> used_count := used_count q + 1 \<rparr>) (promo_codes db3) \<rparr>)"

text \<open>
  \<^verbatim>\<open>create_booking\<close>, after the request body has been parsed and the passenger fields
  checked: the caller, the trip, the seat ids and the promo code (stripped and in upper
  case, empty when absent). The result is the response and the database after the
  request; every failure returns before the first write.
\<close>

definition create_booking ::
  "int \<Rightarrow> int \<Rightarrow> int \<Rightarrow> int list \<Rightarrow> string \<Rightarrow> database \<Rightarrow> (error + Booking) \<times> database" where
  "create_booking now current_user_id trip_id seat_ids promo_code_str db =
     (case query_get User_id (users db) current_user_id of
        None \<Rightarrow> (Inl UserInactive, db)
      | Some user \<Rightarrow>
     (if \<not> User_is_active user then (Inl UserInactive, db) else
     (case validate_seat_selection seat_ids of
        Some e \<Rightarrow> (Inl e, db)
      | None \<Rightarrow>
     (case query_get Trip_id (trips db) trip_id of
        None \<Rightarrow> (Inl TripNotFound, db)
      | Some trip \<Rightarrow>
     (if Trip_status trip \<noteq> SCHEDULED then (Inl (TripNotBookable (Trip_status trip)), db) else
     (if departure_time trip < now then (Inl TripDeparted, db) else
     (let found = filter (requested trip_id seat_ids) (seats db) in
     (if length found \<noteq> length seat_ids
      then (Inl (SeatsNotFound (filter (\<lambda>sid. sid \<notin> set (map Seat_id found)) seat_ids)), db) else
     (let unavailable_seats =
            map (\<lambda>s. (seat_number s, Seat_status s))
              (filter (\<lambda>s. Seat_status s \<noteq> AVAILABLE) found)
      in
     (if unavailable_seats \<noteq> [] then (Inl (SeatUnavailable unavailable_seats), db) else
     (if available_seats trip < int (length seat_ids) then (Inl InsufficientCapacity, db) else
     (let sub = py_round2 (py_sum (map (calculate_price trip) found)) in
     (case apply_promo now db current_user_id promo_code_str sub of
        Inl e \<Rightarrow> (Inl e, db)
      | Inr (promo_code, discount) \<Rightarrow>
     (let booking = new_booking db current_user_id trip_id seat_ids sub promo_code discount
      in (Inr booking, reserve booking trip_id seat_ids promo_code db)))))))))))))))"

text \<open>
  The seats of a booking are released: \<^verbatim>\<open>for seat in booking.seats\<close> sets each to
  available and clears its back-reference.
\<close>

definition release_seats :: "int \<Rightarrow> Seat list \<Rightarrow> Seat list" where
  "release_seats booking_id rows =
     update_where (\<lambda>s. Seat_booking_id s = Some booking_id)
       (\<lambda>s. s\<lparr> Seat_status := AVAILABLE, Seat_booking_id := None \<rparr>) rows"

text \<open>
  The status writes of a cancellation: the booking becomes cancelled, and a paid booking
  becomes refunded.
\<close>

definition cancelled :: "Booking \<Rightarrow> Booking" where
  "cancelled b =
     b\<lparr> booking_status := CANCELLED,
        payment_status := (if payment_status b = PAID then REFUNDED else payment_status b) \<rparr>"

text \<open>
  The usage count of the promo code of a cancelled booking (lines 378 to 382): when the
  booking has a (truthy) promo code id and the code exists, its count is lowered by one,
  but not below zero.
\<close>

definition release_usage :: "Booking \<Rightarrow> PromoCode list \<Rightarrow> PromoCode list" where
  "release_usage booking rows =
     (case promo_code_id booking of
        None \<Rightarrow> rows
      | Some pid \<Rightarrow>
          if pid = 0 then rows
          else (case query_get PromoCode_id rows pid of
                  None \<Rightarrow> rows
                | Some p \<Rightarrow> update_where (\<lambda>q. PromoCode_id q = PromoCode_id p)
                              (\<lambda>q. q\<lparr> used_count := max 0 (used_count q - 1) \<rparr>) rows))"

text \<open>
  \<^verbatim>\<open>cancel_booking\<close>. \<^verbatim>\<open>booking.trip\<close> is the row the foreign key names; a booking
  without one makes the attribute access raise, which the route answers with a rollback.
\<close>

definition cancel_booking ::
  "int \<Rightarrow> int \<Rightarrow> int \<Rightarrow> database \<Rightarrow> (error + Booking) \<times> database" where
  "cancel_booking now current_user_id booking_id db =
     (case query_get Booking_id (bookings db) booking_id of
        None \<Rightarrow> (Inl BookingNotFound, db)
      | Some booking \<Rightarrow>
     (if Booking_user_id booking \<noteq> current_user_id then (Inl Unauthorized, db) else
     (if booking_status booking = CANCELLED then (Inl AlreadyCancelled, db) else
     (if booking_status booking = COMPLETED then (Inl AlreadyCompleted, db) else
     (case query_get Trip_id (trips db) (Booking_trip_id booking) of
        None \<Rightarrow> (Inl InternalError, db)
      | Some trip \<Rightarrow>
     (if departure_time trip < now then (Inl TripDeparted, db) else
     (let db1 = db\<lparr> bookings := update_where (\<lambda>b. Booking_id b = booking_id) cancelled (bookings db) \<rparr>;
          db2 = db1\<lparr> seats := release_seats booking_id (seats db1) \<rparr>;
          db3 = db2\<lparr> trips := update_where (\<lambda>t. Trip_id t = Booking_trip_id booking)
                   (\<lambda>t. t\<lparr> available_seats := available_seats t + num_seats booking \<rparr>)
                   (trips db2) \<rparr>;
          db4 = db3\<lparr> promo_codes := release_usage booking (promo_codes db3) \<rparr>
      in (Inr (cancelled booking), db4))))))))"

text \<open>
  The caller's \<^verbatim>\<open>update_payment_status\<close>: only \<^verbatim>\<open>paid\<close> and \<^verbatim>\<open>failed\<close> are accepted
  (the string is taken in lower case), and a cancelled booking is refused.
\<close>

definition update_payment_status ::
  "int \<Rightarrow> int \<Rightarrow> string \<Rightarrow> database \<Rightarrow> (error + Booking) \<times> database" where
  "update_payment_status current_user_id booking_id payment_status_str db =
     (if payment_status_str \<noteq> ''paid'' \<and> payment_status_str \<noteq> ''failed''
      then (Inl InvalidPaymentStatus, db) else
     (case query_get Booking_id (bookings db) booking_id of
        None \<Rightarrow> (Inl BookingNotFound, db)
      | Some booking \<Rightarrow>
     (if Booking_user_id booking \<noteq> current_user_id then (Inl Unauthorized, db) else
     (if booking_status booking = CANCELLED then (Inl BookingCancelled, db) else
     (let new_status = (if payment_status_str = ''paid'' then PAID else FAILED);
          upd = (\<lambda>b. b\<lparr> payment_status := new_status \<rparr>)
      in (Inr (upd booking),
          db\<lparr> bookings := update_where (\<lambda>b. Booking_id b = booking_id) upd (bookings db) \<rparr>))))))"

section \<open>Administration of bookings (\<^verbatim>\<open>admin_bookings.py\<close>)\<close>

text \<open>The enumeration named by a request string, \<^verbatim>\<open>None\<close> where the constructor raises.\<close>

definition BookingStatus_of :: "string \<Rightarrow> BookingStatus option" where
  "BookingStatus_of s =
     (if s = ''pending'' then Some PENDING
      else if s = ''confirmed'' then Some CONFIRMED
      else if s = ''cancelled'' then Some CANCELLED
      else if s = ''completed'' then Some COMPLETED
      else None)"

definition PaymentStatus_of :: "string \<Rightarrow> PaymentStatus option" where
  "PaymentStatus_of s =
     (if s = ''unpaid'' then Some UNPAID
      else if s = ''paid'' then Some PAID
      else if s = ''refunded'' then Some REFUNDED
      else if s = ''failed'' then Some FAILED
      else None)"

definition SeatStatus_of :: "string \<Rightarrow> SeatStatus option" where
  "SeatStatus_of s =
     (if s = ''available'' then Some AVAILABLE
      else if s = ''booked'' then Some BOOKED
      else if s = ''blocked'' then Some BLOCKED
      else None)"

definition SeatClass_of :: "string \<Rightarrow> SeatClass option" where
  "SeatClass_of s =
     (if s = ''economy'' then Some ECONOMY
      else if s = ''business'' then Some BUSINESS
      else if s = ''first_class'' then Some FIRST_CLASS
      else None)"

text \<open>
  \<^verbatim>\<open>update_booking_status\<close>. Into cancelled, the seats of the booking are released and
  the counter is raised. Out of cancelled, the seats that reference the booking are
  counted among the available ones, booked again, and the counter is lowered by
  \<^verbatim>\<open>num_seats\<close>. Any other change only writes the status.
\<close>

definition update_booking_status ::
  "int \<Rightarrow> string \<Rightarrow> database \<Rightarrow> (error + Booking) \<times> database" where
  "update_booking_status booking_id status_str db =
     (case query_get Booking_id (bookings db) booking_id of
        None \<Rightarrow> (Inl BookingNotFound, db)
      | Some booking \<Rightarrow>
     (case BookingStatus_of status_str of
        None \<Rightarrow> (Inl InvalidBookingStatus, db)
      | Some new_status \<Rightarrow>
     (let old_status = booking_status booking;
          this = (\<lambda>b. Booking_id b = booking_id);
          its_trip = (\<lambda>t. Trip_id t = Booking_trip_id booking)
      in
     (if new_status = CANCELLED \<and> old_status \<noteq> CANCELLED then
        (case query_get Trip_id (trips db) (Booking_trip_id booking) of
           None \<Rightarrow> (Inl InternalError, db)
         | Some trip \<Rightarrow>
        (let upd = (\<lambda>b. b\<lparr> payment_status := (if payment_status b = PAID then REFUNDED
                                                else payment_status b),
                           booking_status := new_status \<rparr>);
             db1 = db\<lparr> seats := release_seats booking_id (seats db) \<rparr>;
             db2 = db1\<lparr> trips := update_where its_trip
                      (\<lambda>t. t\<lparr> available_seats := available_seats t + num_seats booking \<rparr>)
                      (trips db1) \<rparr>;
             db3 = db2\<lparr> bookings := update_where this upd (bookings db2) \<rparr>
         in (Inr (upd booking), db3)))
      else
     (if old_status = CANCELLED \<and> new_status \<noteq> CANCELLED then
        (let seat_ids = map Seat_id (Booking_seats db booking_id);
             available =
               length (filter (\<lambda>s. Seat_id s \<in> set seat_ids \<and> Seat_status s = AVAILABLE) (seats db))
         in
        (if available \<noteq> length seat_ids then (Inl SeatsNoLongerAvailable, db) else
        (case query_get Trip_id (trips db) (Booking_trip_id booking) of
           None \<Rightarrow> (Inl InternalError, db)
         | Some trip \<Rightarrow>
        (let upd = (\<lambda>b. b\<lparr> booking_status := new_status \<rparr>);
             db1 = db\<lparr> seats := update_where (\<lambda>s. Seat_booking_id s = Some booking_id)
                      (\<lambda>s. s\<lparr> Seat_status := BOOKED, Seat_booking_id := Some booking_id \<rparr>)
                      (seats db) \<rparr>;
             db2 = db1\<lparr> trips := update_where its_trip
                      (\<lambda>t. t\<lparr> available_seats := available_seats t - num_seats booking \<rparr>)
                      (trips db1) \<rparr>;
             db3 = db2\<lparr> bookings := update_where this upd (bookings db2) \<rparr>
         in (Inr (upd booking), db3)))))
      else
        (let upd = (\<lambda>b. b\<lparr> booking_status := new_status \<rparr>)
         in (Inr (upd booking), db\<lparr> bookings := update_where this upd (bookings db) \<rparr>)))))))"

text \<open>
  The administrator's \<^verbatim>\<open>update_payment_status\<close> (a second function of that name, in
  \<^verbatim>\<open>admin_bookings.py\<close>): any payment status is written, whatever the booking status.
\<close>

definition admin_update_payment_status ::
  "int \<Rightarrow> string \<Rightarrow> database \<Rightarrow> (error + Booking) \<times> database" where
  "admin_update_payment_status booking_id status_str db =
     (case query_get Booking_id (bookings db) booking_id of
        None \<Rightarrow> (Inl BookingNotFound, db)
      | Some booking \<Rightarrow>
     (case PaymentStatus_of status_str of
        None \<Rightarrow> (Inl InvalidPaymentStatus, db)
      | Some new_status \<Rightarrow>
     (let upd = (\<lambda>b. b\<lparr> payment_status := new_status \<rparr>)
      in (Inr (upd booking),
          db\<lparr> bookings := update_where (\<lambda>b. Booking_id b = booking_id) upd (bookings db) \<rparr>))))"

text \<open>
  \<^verbatim>\<open>delete_booking\<close>: the seats of a booking that is not cancelled are released and the
  counter is raised; then the row is deleted. The relationship \<^verbatim>\<open>booking.seats\<close> has
  no delete cascade, so the unit of work clears the foreign key of any seat that still
  references the deleted row.
\<close>

definition delete_booking :: "int \<Rightarrow> database \<Rightarrow> (error + unit) \<times> database" where
  "delete_booking booking_id db =
     (case query_get Booking_id (bookings db) booking_id of
        None \<Rightarrow> (Inl BookingNotFound, db)
      | Some booking \<Rightarrow>
     (let orphan = update_where (\<lambda>s. Seat_booking_id s = Some booking_id)
                     (\<lambda>s. s\<lparr> Seat_booking_id := None \<rparr>);
          drop = filter (\<lambda>b. Booking_id b \<noteq> booking_id)
      in
     (if booking_status booking \<noteq> CANCELLED then
        (case query_get Trip_id (trips db) (Booking_trip_id booking) of
           None \<Rightarrow> (Inl InternalError, db)
         | Some trip \<Rightarrow>
        (let db1 = db\<lparr> seats := release_seats booking_id (seats db) \<rparr>;
             db2 = db1\<lparr> trips := update_where (\<lambda>t. Trip_id t = Booking_trip_id booking)
                      (\<lambda>t. t\<lparr> available_seats := available_seats t + num_seats booking \<rparr>)
                      (trips db1) \<rparr>
         in (Inr (), db2\<lparr> seats := orphan (seats db2), bookings := drop (bookings db2) \<rparr>)))
      else (Inr (), db\<lparr> seats := orphan (seats db), bookings := drop (bookings db) \<rparr>))))"

section \<open>Administration of seats (\<^verbatim>\<open>admin_trips.py\<close>)\<close>

text \<open>
  \<^verbatim>\<open>update_seat\<close>: of the request body, the seat class, the price multiplier and the
  status, each optional and each giving the write it asks for or an error. A status
  change is refused for a seat that is booked and has a (truthy) back-reference; any
  other seat takes the status the request names. The strings are the request's in lower
  case, the multiplier is the request's number. An error answer returns before the
  commit, so what was assigned to the loaded seat before it is not stored.
\<close>

definition class_update :: "string option \<Rightarrow> error + (Seat \<Rightarrow> Seat)" where
  "class_update class_str =
     (case class_str of
        None \<Rightarrow> Inr (\<lambda>s. s)
      | Some c \<Rightarrow> (case SeatClass_of c of
                     None \<Rightarrow> Inl InvalidSeatClass
                   | Some k \<Rightarrow> Inr (\<lambda>s. s\<lparr> seat_class := k \<rparr>)))"

definition multiplier_update :: "rat option \<Rightarrow> error + (Seat \<Rightarrow> Seat)" where
  "multiplier_update multiplier =
     (case multiplier of
        None \<Rightarrow> Inr (\<lambda>s. s)
      | Some m \<Rightarrow> if m \<le> 0 \<or> 10 < m then Inl InvalidPriceMultiplier
                  else Inr (\<lambda>s. s\<lparr> price_multiplier := m \<rparr>))"

definition status_update :: "Seat \<Rightarrow> string option \<Rightarrow> error + (Seat \<Rightarrow> Seat)" where
  "status_update seat status_str =
     (case status_str of
        None \<Rightarrow> Inr (\<lambda>s. s)
      | Some st \<Rightarrow> (case SeatStatus_of st of
                      None \<Rightarrow> Inl InvalidSeatStatus
                    | Some new_status \<Rightarrow>
                        if Seat_status seat = BOOKED \<and> truthy (Seat_booking_id seat)
                        then Inl SeatInUse
                        else Inr (\<lambda>s. s\<lparr> Seat_status := new_status \<rparr>)))"

definition update_seat ::
  "int \<Rightarrow> int \<Rightarrow> string option \<Rightarrow> rat option \<Rightarrow> string option \<Rightarrow> database
     \<Rightarrow> (error + Seat) \<times> database" where
  "update_seat trip_id seat_id class_str multiplier status_str db =
     (let this = (\<lambda>s. Seat_id s = seat_id \<and> Seat_trip_id s = trip_id) in
     (case find this (seats db) of
        None \<Rightarrow> (Inl SeatNotFound, db)
      | Some seat \<Rightarrow>
     (case class_update class_str of
        Inl e \<Rightarrow> (Inl e, db)
      | Inr upd1 \<Rightarrow>
     (case multiplier_update multiplier of
        Inl e \<Rightarrow> (Inl e, db)
      | Inr upd2 \<Rightarrow>
     (case status_update seat status_str of
        Inl e \<Rightarrow> (Inl e, db)
      | Inr upd3 \<Rightarrow>
     (if class_str = None \<and> multiplier = None \<and> status_str = None then (Inl NoValidFields, db)
      else
        (let upd = (\<lambda>s. upd3 (upd2 (upd1 s)))
         in (Inr (upd seat), db\<lparr> seats := update_where this upd (seats db) \<rparr>))))))))"

section \<open>Payment bridge (\<^verbatim>\<open>payments.py\<close>)\<close>

text \<open>
  \<^verbatim>\<open>initiate_payment\<close> opens a payment attempt for a booking of the caller that is
  neither paid nor cancelled. \<^verbatim>\<open>process_payment\<close> marks the attempt as processing,
  commits, asks the gateway (its answer is the parameter \<open>success\<close>) and on success marks
  the attempt successful and the booking paid.
\<close>

definition initiate_payment :: "int \<Rightarrow> int \<Rightarrow> database \<Rightarrow> (error + Payment) \<times> database" where
  "initiate_payment current_user_id booking_id db =
     (case query_get Booking_id (bookings db) booking_id of
        None \<Rightarrow> (Inl BookingNotFound, db)
      | Some booking \<Rightarrow>
     (if Booking_user_id booking \<noteq> current_user_id then (Inl Unauthorized, db) else
     (if payment_status booking = PAID then (Inl AlreadyPaid, db) else
     (if booking_status booking = CANCELLED then (Inl BookingCancelled, db) else
     (let payment = \<lparr> Payment_id = next_id (map Payment_id (payments db)),
                      Payment_booking_id = booking_id,
                      Payment_user_id = current_user_id,
                      Payment_status = TX_INITIATED \<rparr>
      in (Inr payment, db\<lparr> payments := payments db @ [payment] \<rparr>))))))"

definition process_payment ::
  "int \<Rightarrow> int \<Rightarrow> bool \<Rightarrow> database \<Rightarrow> (error + Payment) \<times> database" where
  "process_payment current_user_id payment_id success db =
     (case query_get Payment_id (payments db) payment_id of
        None \<Rightarrow> (Inl PaymentNotFound, db)
      | Some payment \<Rightarrow>
     (if Payment_user_id payment \<noteq> current_user_id then (Inl Unauthorized, db) else
     (if Payment_status payment \<in> {TX_SUCCESS, TX_FAILED, TX_CANCELLED}
      then (Inl (PaymentAlreadyProcessed (Payment_status payment)), db) else
     (let this = (\<lambda>p. Payment_id p = payment_id);
          db1 = db\<lparr> payments := update_where this (\<lambda>p. p\<lparr> Payment_status := TX_PROCESSING \<rparr>)
                   (payments db) \<rparr>
      in
     (if success then
        (case query_get Booking_id (bookings db1) (Payment_booking_id payment) of
           None \<Rightarrow> (Inl InternalError, db1)
         | Some booking \<Rightarrow>
        (let db2 = db1\<lparr> payments := update_where this (\<lambda>p. p\<lparr> Payment_status := TX_SUCCESS \<rparr>)
                      (payments db1) \<rparr>;
             db3 = db2\<lparr> bookings := update_where
                      (\<lambda>b. Booking_id b = Payment_booking_id payment)
                      (\<lambda>b. b\<lparr> payment_status := PAID \<rparr>) (bookings db2) \<rparr>
         in (Inr (payment\<lparr> Payment_status := TX_SUCCESS \<rparr>), db3)))
      else
        (Inr (payment\<lparr> Payment_status := TX_FAILED \<rparr>),
         db1\<lparr> payments := update_where this (\<lambda>p. p\<lparr> Payment_status := TX_FAILED \<rparr>)
                (payments db1) \<rparr>))))))"

section \<open>The design's properties, as the specification words them\<close>

subsection \<open>Discount\<close>

text \<open>
  The discount as the specification describes it, on exact decimals: nothing below a
  minimum that is set, otherwise the percentage of the amount, capped when a cap is set,
  rounded half up to two decimal places.
\<close>

definition round_half_up2 :: "rat \<Rightarrow> rat" where
  "round_half_up2 x = of_int \<lfloor>x * 100 + 1 / 2\<rfloor> / 100"

definition calculateDiscount_spec :: "PromoCode \<Rightarrow> rat \<Rightarrow> rat" where
  "calculateDiscount_spec promo amount =
     (if (case min_purchase_amount promo of None \<Rightarrow> False | Some m \<Rightarrow> amount < m) then 0
      else
        let discount = amount * (discount_percentage promo / 100)
        in round_half_up2 (case max_discount_amount promo of
                             None \<Rightarrow> discount
                           | Some c \<Rightarrow> min discount c))"

text \<open>
  The two stages of \<open>calculate_discount\<close>, in the float arithmetic of the code: the test
  against a minimum that is set and not zero, and the percentage capped by a cap that is
  set and not zero.
\<close>

definition below_minimum :: "PromoCode \<Rightarrow> rat \<Rightarrow> bool" where
  "below_minimum promo amount =
     (case min_purchase_amount promo of
        None \<Rightarrow> False
      | Some m \<Rightarrow> m \<noteq> 0 \<and> amount < binary64 m)"

definition capped_percentage :: "PromoCode \<Rightarrow> rat \<Rightarrow> rat" where
  "capped_percentage promo amount =
     (let discount = binary64 (binary64 amount * binary64 (binary64 (discount_percentage promo) / 100))
      in case max_discount_amount promo of
           None \<Rightarrow> discount
         | Some c \<Rightarrow> if c \<noteq> 0 then min discount (binary64 c) else discount)"

subsection \<open>Booking requests\<close>

text \<open>
  The subtotal of a request as \<^verbatim>\<open>create_booking\<close> computes it, and as the
  specification words it: the sum over the requested seats of base fare times price
  multiplier.
\<close>

definition request_subtotal :: "database \<Rightarrow> Trip \<Rightarrow> int list \<Rightarrow> rat" where
  "request_subtotal db trip seat_ids =
     py_round2 (py_sum (map (calculate_price trip)
       (filter (requested (Trip_id trip) seat_ids) (seats db))))"

definition exact_subtotal :: "database \<Rightarrow> Trip \<Rightarrow> int list \<Rightarrow> rat" where
  "exact_subtotal db trip seat_ids =
     sum_list (map (\<lambda>s. base_fare trip * price_multiplier s)
       (filter (requested (Trip_id trip) seat_ids) (seats db)))"

text \<open>
  The promo checks of a request: no code is supplied, or the code exists, is valid now,
  is open to the user, and its minimum purchase (when set and not zero) is met.
\<close>

definition promo_checks_pass :: "int \<Rightarrow> database \<Rightarrow> int \<Rightarrow> string \<Rightarrow> rat \<Rightarrow> bool" where
  "promo_checks_pass now db user_id promo_code_str sub =
     (promo_code_str = [] \<or>
      (case find (\<lambda>p. code p = promo_code_str) (promo_codes db) of
         None \<Rightarrow> False
       | Some p \<Rightarrow>
           is_valid now p = None
           \<and> check_user_eligibility (bookings db) p user_id = None
           \<and> (case min_purchase_amount p of None \<Rightarrow> True | Some m \<Rightarrow> m = 0 \<or> m \<le> sub)))"

text \<open>
  A request that passes all validations: the caller is an active user, the seat list is
  not empty and has no duplicate, the trip exists, is scheduled and has not departed,
  every requested seat belongs to the trip and is available, the counter covers the
  request, and the promo checks pass.
\<close>

definition passes_validations ::
  "int \<Rightarrow> int \<Rightarrow> int \<Rightarrow> int list \<Rightarrow> string \<Rightarrow> database \<Rightarrow> bool" where
  "passes_validations now user_id trip_id seat_ids promo_code_str db =
     ((case query_get User_id (users db) user_id of
         None \<Rightarrow> False
       | Some u \<Rightarrow> User_is_active u)
      \<and> seat_ids \<noteq> [] \<and> distinct seat_ids
      \<and> (case query_get Trip_id (trips db) trip_id of
            None \<Rightarrow> False
          | Some trip \<Rightarrow>
              Trip_status trip = SCHEDULED
              \<and> now \<le> departure_time trip
              \<and> list_all (\<lambda>sid. list_ex (\<lambda>s. Seat_id s = sid \<and> Seat_trip_id s = trip_id)
                                    (seats db)) seat_ids
              \<and> list_all (\<lambda>s. Seat_status s = AVAILABLE)
                   (filter (requested trip_id seat_ids) (seats db))
              \<and> int (length seat_ids) \<le> available_seats trip
              \<and> promo_checks_pass now db user_id promo_code_str
                   (request_subtotal db trip seat_ids)))"

text \<open>Primary keys are unique: no two seat rows share an id.\<close>

definition seat_keys :: "database \<Rightarrow> bool" where
  "seat_keys db = distinct (map Seat_id (seats db))"

subsection \<open>Inventory invariants\<close>

text \<open>
  The counter invariant: for every trip, the available seats are the total seats minus
  the seats of the trip whose state is booked, and lie between 0 and the total.
\<close>

definition booked_count :: "database \<Rightarrow> int \<Rightarrow> int" where
  "booked_count db trip_id =
     int (length (filter (\<lambda>s. Seat_trip_id s = trip_id \<and> Seat_status s = BOOKED) (seats db)))"

definition counter_ok :: "database \<Rightarrow> bool" where
  "counter_ok db =
     list_all (\<lambda>t. available_seats t = total_seats t - booked_count db (Trip_id t)
                   \<and> 0 \<le> available_seats t \<and> available_seats t \<le> total_seats t) (trips db)"

subsection \<open>Sequences of requests\<close>

text \<open>
  A sequence of successful booking requests that all supply the promo code \<open>c\<close>, each
  given by its time, caller, trip and seat ids; the result is the list of the bookings
  created and the database after the last one. And a sequence of successful
  cancellations, each given by its time, caller and booking id.
\<close>

fun run_creates ::
  "string \<Rightarrow> (int \<times> int \<times> int \<times> int list) list \<Rightarrow> database
     \<Rightarrow> (Booking list \<times> database) option" where
  "run_creates c [] db = Some ([], db)"
| "run_creates c ((now, u, t, ids) # reqs) db =
     (case create_booking now u t ids c db of
        (Inl e, db') \<Rightarrow> None
      | (Inr b, db') \<Rightarrow>
          (case run_creates c reqs db' of
             None \<Rightarrow> None
           | Some (bs, db'') \<Rightarrow> Some (b # bs, db'')))"

fun run_cancels :: "(int \<times> int \<times> int) list \<Rightarrow> database \<Rightarrow> database option" where
  "run_cancels [] db = Some db"
| "run_cancels ((now, u, booking_id) # cs) db =
     (case cancel_booking now u booking_id db of
        (Inl e, db') \<Rightarrow> None
      | (Inr b, db') \<Rightarrow> run_cancels cs db')"

subsection \<open>Seat back-references\<close>

text \<open>
  The back-reference invariant of a seat: the back-reference is set exactly when the
  seat is booked, and a back-reference names a booking that is pending, confirmed or
  completed.
\<close>

definition seat_ok :: "Booking list \<Rightarrow> Seat \<Rightarrow> bool" where
  "seat_ok bs s =
     ((Seat_booking_id s \<noteq> None) = (Seat_status s = BOOKED)
      \<and> (case Seat_booking_id s of
            None \<Rightarrow> True
          | Some i \<Rightarrow>
              (case query_get Booking_id bs i of
                 None \<Rightarrow> False
               | Some b \<Rightarrow> booking_status b \<in> {PENDING, CONFIRMED, COMPLETED})))"

definition seat_backref_ok :: "database \<Rightarrow> bool" where
  "seat_backref_ok db = list_all (seat_ok (bookings db)) (seats db)"

text \<open>Primary keys start at 1: no booking row has the id 0.\<close>

definition booking_keys_positive :: "database \<Rightarrow> bool" where
  "booking_keys_positive db = list_all (\<lambda>b. Booking_id b \<noteq> 0) (bookings db)"

section \<open>Example data\<close>

text \<open>
  The promo code of the specification's scenario B, a second code without minimum or
  cap, and a small database: two active users, one scheduled trip (base fare 100.50,
  departure at time 1000) with three seats.
\<close>

definition SAVE10 :: PromoCode where
  "SAVE10 = \<lparr> PromoCode_id = 1, code = ''SAVE10'', discount_percentage = 10,
      max_discount_amount = Some 20, min_purchase_amount = Some 50, usage_limit = Some 100,
      used_count = 0, usage_per_user = Some 1, valid_from = 0, valid_until = 2000,
      is_active = True \<rparr>"

definition HALF50 :: PromoCode where
  "HALF50 = \<lparr> PromoCode_id = 2, code = ''HALF50'', discount_percentage = 50,
      max_discount_amount = None, min_purchase_amount = None, usage_limit = Some 2,
      used_count = 0, usage_per_user = Some 1, valid_from = 0, valid_until = 2000,
      is_active = True \<rparr>"

definition demo_trip :: Trip where
  "demo_trip = \<lparr> Trip_id = 1, departure_time = 1000, base_fare = 201 / 2, total_seats = 3,
      available_seats = 3, Trip_status = SCHEDULED \<rparr>"

definition demo_db :: database where
  "demo_db = \<lparr>
     users = [\<lparr> User_id = 1, User_is_active = True \<rparr>, \<lparr> User_id = 2, User_is_active = True \<rparr>],
     trips = [demo_trip],
     seats = [\<lparr> Seat_id = 1, seat_number = ''A1'', seat_class = ECONOMY, Seat_status = AVAILABLE,
                price_multiplier = 1, Seat_trip_id = 1, Seat_booking_id = None \<rparr>,
              \<lparr> Seat_id = 2, seat_number = ''A2'', seat_class = BUSINESS, Seat_status = AVAILABLE,
                price_multiplier = 5 / 4, Seat_trip_id = 1, Seat_booking_id = None \<rparr>,
              \<lparr> Seat_id = 3, seat_number = ''A3'', seat_class = ECONOMY, Seat_status = AVAILABLE,
                price_multiplier = 1, Seat_trip_id = 1, Seat_booking_id = None \<rparr>],
     bookings = [],
     promo_codes = [SAVE10, HALF50],
     payments = [] \<rparr>"

section \<open>Evaluation of closed terms\<close>

text \<open>
  Rewrite rules with which the simplifier computes the float operations on numerals.
\<close>

lemma bit_length_numeral:
  "bit_length (numeral k) = 1 + bit_length (numeral k div 2)"
  "bit_length 0 = 0" "bit_length (Suc 0) = 1" "bit_length 1 = 1"
  by simp_all
declare bit_length.simps [simp del]

lemma floor_rat_numeral:
  "\<lfloor>numeral a / numeral b :: rat\<rfloor> = numeral a div numeral b"
  "\<lfloor>1 / numeral b :: rat\<rfloor> = 1 div numeral b"
  "\<lfloor>- (numeral a / numeral b) :: rat\<rfloor> = - numeral a div numeral b"
  "\<lfloor>- (1 / numeral b) :: rat\<rfloor> = - 1 div numeral b"
     apply (metis floor_divide_of_int_eq of_int_numeral)
    apply (metis floor_divide_of_int_eq of_int_1 of_int_numeral)
   apply (metis divide_minus_left floor_divide_of_int_eq of_int_neg_numeral of_int_numeral)
  apply (metis divide_minus_left floor_divide_of_int_eq of_int_minus of_int_1 of_int_numeral)
  done

lemmas float_eval = binary64_def ilog2_def pow2_def round_half_even_def py_round2_def
  py_sum_def bit_length_numeral Let_def floor_rat_numeral ceiling_def

text \<open>The definitions with which the simplifier runs the routes on a given database.\<close>

lemmas op_eval = create_booking_def new_booking_def reserve_def requested_def
  cancel_booking_def cancelled_def release_usage_def update_booking_status_def
  update_payment_status_def admin_update_payment_status_def delete_booking_def update_seat_def
  class_update_def multiplier_update_def status_update_def
  initiate_payment_def process_payment_def apply_promo_def validate_seat_selection_def
  is_valid_def check_user_eligibility_def user_usage_def
  query_get_def update_where_def next_id_def Booking_seats_def release_seats_def
  BookingStatus_of_def PaymentStatus_of_def SeatStatus_of_def SeatClass_of_def Let_def

lemmas demo_eval = demo_db_def demo_trip_def SAVE10_def HALF50_def

lemmas all_eval = op_eval float_eval calculate_price_def request_subtotal_def
  passes_validations_def promo_checks_pass_def seat_keys_def

section \<open>Queries and updates\<close>

lemma query_get_SomeD: "query_get pk rows i = Some r \<Longrightarrow> pk r = i \<and> r \<in> set rows"
  by (auto simp: query_get_def find_Some_iff in_set_conv_nth)

lemma found_all_iff:
  assumes "distinct (map Seat_id rows)" "distinct ids"
  shows "(length (filter (requested t ids) rows) = length ids)
       = (\<forall>sid\<in>set ids. \<exists>s\<in>set rows. Seat_id s = sid \<and> Seat_trip_id s = t)"
proof -
  let ?found = "filter (requested t ids) rows"
  have d: "distinct (map Seat_id ?found)" using assms(1) by (simp add: distinct_map_filter)
  have sub: "set (map Seat_id ?found) \<subseteq> set ids" by (auto simp: requested_def)
  have l1: "length ?found = card (set (map Seat_id ?found))"
    using distinct_card [OF d] by simp
  have l2: "length ids = card (set ids)" using distinct_card [OF assms(2)] by simp
  have "(length ?found = length ids) = (set (map Seat_id ?found) = set ids)"
  proof
    assume "length ?found = length ids"
    with l1 l2 have "card (set (map Seat_id ?found)) = card (set ids)" by simp
    with sub show "set (map Seat_id ?found) = set ids" by (simp add: card_subset_eq)
  next
    assume "set (map Seat_id ?found) = set ids"
    with l1 l2 show "length ?found = length ids" by simp
  qed
  also have "\<dots> = (\<forall>sid\<in>set ids. \<exists>s\<in>set rows. Seat_id s = sid \<and> Seat_trip_id s = t)"
  proof
    assume eq: "set (map Seat_id ?found) = set ids"
    show "\<forall>sid\<in>set ids. \<exists>s\<in>set rows. Seat_id s = sid \<and> Seat_trip_id s = t"
    proof
      fix sid assume "sid \<in> set ids"
      with eq have "sid \<in> set (map Seat_id ?found)" by simp
      then obtain s where "s \<in> set ?found" "Seat_id s = sid" by auto
      then show "\<exists>s\<in>set rows. Seat_id s = sid \<and> Seat_trip_id s = t"
        by (auto simp: requested_def)
    qed
  next
    assume all: "\<forall>sid\<in>set ids. \<exists>s\<in>set rows. Seat_id s = sid \<and> Seat_trip_id s = t"
    have "set ids \<subseteq> set (map Seat_id ?found)"
    proof
      fix sid assume m: "sid \<in> set ids"
      with all obtain s where "s \<in> set rows" "Seat_id s = sid" "Seat_trip_id s = t" by blast
      with m have "s \<in> set ?found" by (simp add: requested_def)
      with \<open>Seat_id s = sid\<close> show "sid \<in> set (map Seat_id ?found)" by force
    qed
    with sub show "set (map Seat_id ?found) = set ids" by blast
  qed
  finally show ?thesis .
qed

lemma find_update_where:
  assumes "\<And>r. Q (f r) = Q r"
  shows "find Q (update_where P f rows) = map_option (\<lambda>r. if P r then f r else r) (find Q rows)"
  using assms by (induction rows) (auto simp: update_where_def)

lemma query_get_update_where:
  assumes "\<And>r. pk (f r) = pk r"
  shows "query_get pk (update_where P f rows) i
       = map_option (\<lambda>r. if P r then f r else r) (query_get pk rows i)"
  unfolding query_get_def using assms by (intro find_update_where) simp

lemma set_update_where: "set (update_where P f rows) = (\<lambda>r. if P r then f r else r) ` set rows"
  by (simp add: update_where_def)

lemma length_update_where [simp]: "length (update_where P f rows) = length rows"
  by (simp add: update_where_def)

lemma le_fold_max: "m \<le> fold max ids (m::int)"
proof (induction ids arbitrary: m)
  case Nil
  then show ?case by simp
next
  case (Cons a ids)
  have "m \<le> max a m" by simp
  also have "\<dots> \<le> fold max ids (max a m)" by (rule Cons.IH)
  finally show ?case by simp
qed

lemma find_append_rows:
  "find P (xs @ ys) = (case find P xs of None \<Rightarrow> find P ys | Some x \<Rightarrow> Some x)"
  by (induction xs) auto

lemma mem_le_fold_max: "i \<in> set ids \<Longrightarrow> i \<le> fold max ids (m::int)"
proof (induction ids arbitrary: m)
  case Nil
  then show ?case by simp
next
  case (Cons a ids)
  show ?case
  proof (cases "i = a")
    case True
    have "max a m \<le> fold max ids (max a m)" by (rule le_fold_max)
    with True show ?thesis by simp
  next
    case False
    with Cons show ?thesis by simp
  qed
qed

lemma next_id_fresh: "i \<in> set ids \<Longrightarrow> i < next_id ids"
  using mem_le_fold_max [of i ids 0] by (simp add: next_id_def)

lemma next_id_positive: "0 < next_id ids"
  using le_fold_max [of 0 ids] by (simp add: next_id_def)

lemma query_get_append_fresh:
  assumes "pk r = next_id (map pk rows)"
  shows "query_get pk (rows @ [r]) i
       = (if i = next_id (map pk rows) then Some r else query_get pk rows i)"
proof (cases "query_get pk rows i")
  case None
  then show ?thesis using assms by (simp add: query_get_def find_append_rows)
next
  case (Some x)
  then have "pk x = i" "x \<in> set rows" by (auto dest: query_get_SomeD)
  then have "i < next_id (map pk rows)" by (auto intro: next_id_fresh)
  with Some show ?thesis by (auto simp: query_get_def find_append_rows)
qed

section \<open>Discount computation\<close>

lemma round_half_even_nearest: "\<bar>of_int (round_half_even y) - y\<bar> \<le> 1 / 2"
proof -
  have "of_int \<lfloor>y\<rfloor> \<le> y" "y < of_int \<lfloor>y\<rfloor> + 1" by linarith+
  then show ?thesis
    unfolding round_half_even_def Let_def by (simp split: if_splits)
qed

lemma round_half_even_tie:
  assumes "\<bar>of_int (round_half_even y) - y\<bar> = 1 / 2"
  shows "even (round_half_even y)"
proof -
  have fl: "of_int \<lfloor>y\<rfloor> \<le> y" "y < of_int \<lfloor>y\<rfloor> + 1" by linarith+
  show ?thesis
  proof (cases "y - of_int \<lfloor>y\<rfloor> < 1 / 2")
    case True
    then have "round_half_even y = \<lfloor>y\<rfloor>" by (simp add: round_half_even_def)
    with assms True fl show ?thesis by (simp; linarith?)
  next
    case False
    show ?thesis
    proof (cases "1 / 2 < y - of_int \<lfloor>y\<rfloor>")
      case True
      then have "round_half_even y = \<lfloor>y\<rfloor> + 1" using False by (simp add: round_half_even_def)
      with assms True fl show ?thesis by (simp; linarith?)
    next
      case False
      then show ?thesis using \<open>\<not> y - of_int \<lfloor>y\<rfloor> < 1 / 2\<close>
        by (simp add: round_half_even_def Let_def)
    qed
  qed
qed

lemma calculate_discount_unfold:
  "calculate_discount p a =
     (if below_minimum p a then 0 else py_round2 (capped_percentage p a))"
  by (cases "min_purchase_amount p")
     (simp_all add: calculate_discount_def below_minimum_def capped_percentage_def Let_def)

text \<open>
  Claim C7, amended. The discount is 0 when the minimum purchase amount is set, not zero,
  and the amount is below it. Otherwise the float product of the amount and a hundredth
  of the percentage, capped at the maximum discount when that is set and not zero, is
  rounded to two decimal places by Python's \<^verbatim>\<open>round\<close>: the result is the float of
  \<open>c / 100\<close> for the integer \<open>c\<close> nearest to a hundred times that value, and on an exact
  tie \<open>c\<close> is even. For SAVE10 (10 percent, minimum 50, cap 20) the amounts 100, 300 and
  40 give 10, 20 and 0.
\<close>

theorem calculate_discount_nearest_cent:
  "(below_minimum p a \<longrightarrow> calculate_discount p a = 0)
   \<and> (\<not> below_minimum p a \<longrightarrow>
        (\<exists>c::int. calculate_discount p a = binary64 (of_int c / 100)
           \<and> \<bar>of_int c - 100 * capped_percentage p a\<bar> \<le> 1 / 2
           \<and> (\<bar>of_int c - 100 * capped_percentage p a\<bar> = 1 / 2 \<longrightarrow> even c)))
   \<and> calculate_discount SAVE10 100 = 10
   \<and> calculate_discount SAVE10 300 = 20
   \<and> calculate_discount SAVE10 40 = 0"
proof -
  have zero: "below_minimum p a \<longrightarrow> calculate_discount p a = 0"
    by (simp add: calculate_discount_unfold)
  have near: "\<not> below_minimum p a \<longrightarrow>
        (\<exists>c::int. calculate_discount p a = binary64 (of_int c / 100)
           \<and> \<bar>of_int c - 100 * capped_percentage p a\<bar> \<le> 1 / 2
           \<and> (\<bar>of_int c - 100 * capped_percentage p a\<bar> = 1 / 2 \<longrightarrow> even c))"
  proof
    assume nb: "\<not> below_minimum p a"
    let ?y = "capped_percentage p a * 100"
    have "calculate_discount p a = binary64 (of_int (round_half_even ?y) / 100)"
      using nb by (simp add: calculate_discount_unfold py_round2_def)
    moreover have "\<bar>of_int (round_half_even ?y) - 100 * capped_percentage p a\<bar> \<le> 1 / 2"
      using round_half_even_nearest [of ?y] by (simp add: mult.commute)
    moreover have "\<bar>of_int (round_half_even ?y) - 100 * capped_percentage p a\<bar> = 1 / 2
        \<longrightarrow> even (round_half_even ?y)"
      using round_half_even_tie [of ?y] by (simp add: mult.commute)
    ultimately show "\<exists>c::int. calculate_discount p a = binary64 (of_int c / 100)
           \<and> \<bar>of_int c - 100 * capped_percentage p a\<bar> \<le> 1 / 2
           \<and> (\<bar>of_int c - 100 * capped_percentage p a\<bar> = 1 / 2 \<longrightarrow> even c)"
      by blast
  qed
  have e1: "calculate_discount SAVE10 100 = 10"
    by (simp add: calculate_discount_def SAVE10_def float_eval)
  have e2: "calculate_discount SAVE10 300 = 20"
    by (simp add: calculate_discount_def SAVE10_def float_eval)
  have e3: "calculate_discount SAVE10 40 = 0"
    by (simp add: calculate_discount_def SAVE10_def float_eval)
  from zero near e1 e2 e3 show ?thesis by blast
qed

text \<open>
  The theorem at SAVE10 with the amount 40 (below the minimum) and at HALF50 with the
  amount 100.25 (no minimum).
\<close>

theorem calculate_discount_nearest_cent_witness:
  "below_minimum SAVE10 40 \<and> calculate_discount SAVE10 40 = 0
   \<and> \<not> below_minimum HALF50 (401 / 4)
   \<and> (\<exists>c::int. calculate_discount HALF50 (401 / 4) = binary64 (of_int c / 100)
         \<and> \<bar>of_int c - 100 * capped_percentage HALF50 (401 / 4)\<bar> \<le> 1 / 2)"
proof -
  have b: "below_minimum SAVE10 40"
    by (simp add: below_minimum_def SAVE10_def float_eval)
  have nb: "\<not> below_minimum HALF50 (401 / 4)"
    by (simp add: below_minimum_def HALF50_def)
  from calculate_discount_nearest_cent [of SAVE10 40] b
  have "calculate_discount SAVE10 40 = 0" by blast
  moreover from calculate_discount_nearest_cent [of HALF50 "401 / 4"] nb
  have "\<exists>c::int. calculate_discount HALF50 (401 / 4) = binary64 (of_int c / 100)
         \<and> \<bar>of_int c - 100 * capped_percentage HALF50 (401 / 4)\<bar> \<le> 1 / 2"
    by blast
  ultimately show ?thesis using b nb by blast
qed

text \<open>
  Claim C7 as stated fails. Half of 100.25 is 50.125, a float: the code returns the float
  of 50.12 where rounding half up gives 50.13. And a cap that is set to zero is not
  applied: SAVE10 with a cap of 0 still gives 10 for the amount 100.
\<close>

theorem calculate_discount_half_up_counterexample:
  "calculate_discount HALF50 (401 / 4) = binary64 (5012 / 100)
   \<and> calculateDiscount_spec HALF50 (401 / 4) = 5013 / 100
   \<and> calculate_discount HALF50 (401 / 4) \<noteq> binary64 (calculateDiscount_spec HALF50 (401 / 4))
   \<and> calculate_discount (SAVE10\<lparr> max_discount_amount := Some 0 \<rparr>) 100 = 10
   \<and> calculateDiscount_spec (SAVE10\<lparr> max_discount_amount := Some 0 \<rparr>) 100 = 0"
  by (simp add: calculate_discount_def calculateDiscount_spec_def round_half_up2_def
      HALF50_def SAVE10_def float_eval)

section \<open>Creating a booking\<close>

lemma create_booking_error_unchanged:
  "create_booking now u t ids c db = (Inl e, db') \<Longrightarrow> db' = db"
  by (auto simp: create_booking_def Let_def split: option.splits if_splits sum.splits prod.splits)

lemma create_booking_success:
  assumes "seat_keys db" "passes_validations now u t ids c db"
  shows "\<exists>trip promo discount.
           query_get Trip_id (trips db) t = Some trip
           \<and> apply_promo now db u c (request_subtotal db trip ids) = Inr (promo, discount)
           \<and> create_booking now u t ids c db =
               (Inr (new_booking db u t ids (request_subtotal db trip ids) promo discount),
                reserve (new_booking db u t ids (request_subtotal db trip ids) promo discount)
                  t ids promo db)"
proof -
  from assms(2) obtain usr trip where
    usr: "query_get User_id (users db) u = Some usr" "User_is_active usr"
    and ids: "ids \<noteq> []" "distinct ids"
    and trip: "query_get Trip_id (trips db) t = Some trip" "Trip_status trip = SCHEDULED"
      "now \<le> departure_time trip"
    and belong: "list_all (\<lambda>sid. list_ex (\<lambda>s. Seat_id s = sid \<and> Seat_trip_id s = t) (seats db)) ids"
    and avail: "list_all (\<lambda>s. Seat_status s = AVAILABLE) (filter (requested t ids) (seats db))"
    and cap: "int (length ids) \<le> available_seats trip"
    and promo: "promo_checks_pass now db u c (request_subtotal db trip ids)"
    by (auto simp: passes_validations_def split: option.splits)
  have tid: "Trip_id trip = t" using trip(1) by (auto dest: query_get_SomeD)
  have vs: "validate_seat_selection ids = None"
    using ids by (simp add: validate_seat_selection_def distinct_remdups_id)
  have len: "length (filter (requested t ids) (seats db)) = length ids"
    using found_all_iff [of "seats db" ids t] assms(1) ids(2) belong
    by (auto simp: seat_keys_def list_all_iff list_ex_iff)
  have un: "filter (\<lambda>s. Seat_status s \<noteq> AVAILABLE) (filter (requested t ids) (seats db)) = []"
    using avail by (auto simp: list_all_iff filter_empty_conv)
  have "\<exists>promo_code discount.
      apply_promo now db u c (request_subtotal db trip ids) = Inr (promo_code, discount)"
    using promo
    by (auto simp: promo_checks_pass_def apply_promo_def not_less split: option.splits)
  then obtain promo_code discount where
    ap: "apply_promo now db u c (request_subtotal db trip ids) = Inr (promo_code, discount)"
    by blast
  have "create_booking now u t ids c db =
               (Inr (new_booking db u t ids (request_subtotal db trip ids) promo_code discount),
                reserve (new_booking db u t ids (request_subtotal db trip ids) promo_code discount)
                  t ids promo_code db)"
    using usr vs trip len un cap ap
    by (simp add: create_booking_def Let_def request_subtotal_def tid)
  with trip(1) ap show ?thesis by blast
qed

lemma validate_seat_selection_None:
  "validate_seat_selection ids = None \<longleftrightarrow> ids \<noteq> [] \<and> distinct ids"
  by (auto simp: validate_seat_selection_def distinct_remdups_id)
     (metis length_remdups_eq remdups_id_iff_distinct)

lemma create_booking_InrD:
  assumes "create_booking now u t ids c db = (Inr b, db')"
  obtains usr trip promo discount where
    "query_get User_id (users db) u = Some usr" "User_is_active usr"
    "validate_seat_selection ids = None"
    "query_get Trip_id (trips db) t = Some trip" "Trip_status trip = SCHEDULED"
    "\<not> departure_time trip < now"
    "length (filter (requested t ids) (seats db)) = length ids"
    "filter (\<lambda>s. Seat_status s \<noteq> AVAILABLE) (filter (requested t ids) (seats db)) = []"
    "\<not> available_seats trip < int (length ids)"
    "apply_promo now db u c (request_subtotal db trip ids) = Inr (promo, discount)"
    "b = new_booking db u t ids (request_subtotal db trip ids) promo discount"
    "db' = reserve b t ids promo db"
proof -
  from assms obtain usr where usr: "query_get User_id (users db) u = Some usr" "User_is_active usr"
    by (auto simp: create_booking_def split: option.splits if_splits)
  from assms usr have vs: "validate_seat_selection ids = None"
    by (auto simp: create_booking_def split: option.splits if_splits)
  from assms usr vs obtain trip where trip: "query_get Trip_id (trips db) t = Some trip"
    by (auto simp: create_booking_def split: option.splits if_splits)
  then have tid: "Trip_id trip = t" by (auto dest: query_get_SomeD)
  from assms usr vs trip have rest:
    "Trip_status trip = SCHEDULED" "\<not> departure_time trip < now"
    "length (filter (requested t ids) (seats db)) = length ids"
    "filter (\<lambda>s. Seat_status s \<noteq> AVAILABLE) (filter (requested t ids) (seats db)) = []"
    "\<not> available_seats trip < int (length ids)"
    by (auto simp: create_booking_def Let_def split: if_splits)
  from assms usr vs trip rest obtain promo discount where
    ap: "apply_promo now db u c (request_subtotal db trip ids) = Inr (promo, discount)"
    and b: "b = new_booking db u t ids (request_subtotal db trip ids) promo discount"
    and db': "db' = reserve b t ids promo db"
    by (auto simp: create_booking_def Let_def request_subtotal_def tid split: sum.splits)
  from usr vs trip rest ap b db' that show thesis by blast
qed

lemma apply_promo_InrD:
  "apply_promo now db u c sub = Inr (promo, discount) \<Longrightarrow> promo_checks_pass now db u c sub"
  by (auto simp: apply_promo_def promo_checks_pass_def not_less split: option.splits if_splits)

lemma create_booking_Inr_validations:
  assumes "seat_keys db" "create_booking now u t ids c db = (Inr b, db')"
  shows "passes_validations now u t ids c db"
proof -
  from assms(2) obtain usr trip promo discount where h:
    "query_get User_id (users db) u = Some usr" "User_is_active usr"
    "validate_seat_selection ids = None"
    "query_get Trip_id (trips db) t = Some trip" "Trip_status trip = SCHEDULED"
    "\<not> departure_time trip < now"
    "length (filter (requested t ids) (seats db)) = length ids"
    "filter (\<lambda>s. Seat_status s \<noteq> AVAILABLE) (filter (requested t ids) (seats db)) = []"
    "\<not> available_seats trip < int (length ids)"
    "apply_promo now db u c (request_subtotal db trip ids) = Inr (promo, discount)"
    by (rule create_booking_InrD)
  from h(3) have ids: "ids \<noteq> []" "distinct ids" by (simp_all add: validate_seat_selection_None)
  have belong: "list_all (\<lambda>sid. list_ex (\<lambda>s. Seat_id s = sid \<and> Seat_trip_id s = t) (seats db)) ids"
    using found_all_iff [of "seats db" ids t] assms(1) ids(2) h(7)
    by (auto simp: seat_keys_def list_all_iff list_ex_iff)
  have avail: "list_all (\<lambda>s. Seat_status s = AVAILABLE) (filter (requested t ids) (seats db))"
    using h(8) by (auto simp: list_all_iff filter_empty_conv)
  show ?thesis
    using h(1,2,4,5,6,9) ids belong avail apply_promo_InrD [OF h(10)]
    by (simp add: passes_validations_def)
qed

lemma create_booking_failure:
  assumes "seat_keys db" "\<not> passes_validations now u t ids c db"
  shows "\<exists>e. create_booking now u t ids c db = (Inl e, db)"
proof (cases "create_booking now u t ids c db")
  case (Pair r db')
  show ?thesis
  proof (cases r)
    case (Inl e)
    with Pair create_booking_error_unchanged [of now u t ids c db e db'] show ?thesis by simp
  next
    case (Inr b)
    with Pair assms create_booking_Inr_validations [of db now u t ids c b db'] show ?thesis by simp
  qed
qed

lemma reserve_fields:
  "bookings (reserve b t ids promo db) = bookings db @ [b]"
  "seats (reserve b t ids promo db) =
     update_where (requested t ids)
       (\<lambda>s. s\<lparr> Seat_status := BOOKED, Seat_booking_id := Some (Booking_id b) \<rparr>) (seats db)"
  "trips (reserve b t ids promo db) =
     update_where (\<lambda>tr. Trip_id tr = t)
       (\<lambda>tr. tr\<lparr> available_seats := available_seats tr - int (length ids) \<rparr>) (trips db)"
  "promo_codes (reserve b t ids promo db) =
     (case promo of
        None \<Rightarrow> promo_codes db
      | Some p \<Rightarrow> update_where (\<lambda>q. PromoCode_id q = PromoCode_id p)
                    (\<lambda>q. q\<lparr> used_count := used_count q + 1 \<rparr>) (promo_codes db))"
  "users (reserve b t ids promo db) = users db"
  "payments (reserve b t ids promo db) = payments db"
  by (simp_all add: reserve_def Let_def split: option.splits)

lemma apply_promo_cases:
  assumes "apply_promo now db u c sub = Inr (promo, discount)"
  shows "(c = [] \<and> promo = None \<and> discount = 0)
       \<or> (c \<noteq> [] \<and> (\<exists>p. find (\<lambda>p. code p = c) (promo_codes db) = Some p \<and> promo = Some p
              \<and> is_valid now p = None \<and> check_user_eligibility (bookings db) p u = None
              \<and> discount = calculate_discount p sub))"
  using assms by (auto simp: apply_promo_def split: option.splits if_splits)

text \<open>
  Claim C2, amended. For every request that passes all validations, on a database whose
  seat rows have unique ids: a booking is created with status confirmed and payment
  status unpaid; its subtotal is the float sum over the requested seats of base fare
  times price multiplier, rounded to two decimal places by \<^verbatim>\<open>round\<close>; its total is the
  float difference of subtotal and discount, rounded to two decimal places; every
  requested seat is booked with its back-reference set to the new booking; the counter
  of the trip is lowered by the number of requested seats; and when a promo code is
  supplied the discount is the one the code computes for the subtotal and the usage
  count of the code is raised by exactly 1 (without a code the discount is 0 and the
  promo codes are untouched).
\<close>

theorem create_booking_effects:
  assumes "seat_keys db" and "passes_validations now u t ids c db"
  shows "\<exists>b db' trip.
      create_booking now u t ids c db = (Inr b, db')
    \<and> query_get Trip_id (trips db) t = Some trip
    \<and> bookings db' = bookings db @ [b]
    \<and> booking_status b = CONFIRMED \<and> payment_status b = UNPAID
    \<and> num_seats b = int (length ids)
    \<and> subtotal b = py_round2 (py_sum (map (calculate_price trip)
                       (filter (requested t ids) (seats db))))
    \<and> total_amount b = py_round2 (binary64 (subtotal b - discount_amount b))
    \<and> (\<forall>sid\<in>set ids. \<exists>s\<in>set (seats db'). Seat_id s = sid \<and> Seat_trip_id s = t)
    \<and> (\<forall>s\<in>set (seats db'). requested t ids s \<longrightarrow>
           Seat_status s = BOOKED \<and> Seat_booking_id s = Some (Booking_id b))
    \<and> query_get Trip_id (trips db') t
          = Some (trip\<lparr> available_seats := available_seats trip - int (length ids) \<rparr>)
    \<and> (c = [] \<longrightarrow> discount_amount b = 0 \<and> promo_code_id b = None
                    \<and> promo_codes db' = promo_codes db)
    \<and> (c \<noteq> [] \<longrightarrow>
          (\<exists>p. find (\<lambda>p. code p = c) (promo_codes db) = Some p
             \<and> discount_amount b = calculate_discount p (subtotal b)
             \<and> promo_code_id b = Some (PromoCode_id p)
             \<and> find (\<lambda>p. code p = c) (promo_codes db')
                  = Some (p\<lparr> used_count := used_count p + 1 \<rparr>)))"
proof -
  from create_booking_success [OF assms] obtain trip promo discount where
    trip: "query_get Trip_id (trips db) t = Some trip"
    and ap: "apply_promo now db u c (request_subtotal db trip ids) = Inr (promo, discount)"
    and cb: "create_booking now u t ids c db =
               (Inr (new_booking db u t ids (request_subtotal db trip ids) promo discount),
                reserve (new_booking db u t ids (request_subtotal db trip ids) promo discount)
                  t ids promo db)"
    by (elim exE conjE) (rule that)
  define b where "b = new_booking db u t ids (request_subtotal db trip ids) promo discount"
  define db' where "db' = reserve b t ids promo db"
  have tid: "Trip_id trip = t" using trip by (auto dest: query_get_SomeD)
  have c1: "create_booking now u t ids c db = (Inr b, db')" using cb by (simp add: b_def db'_def)
  have c3: "bookings db' = bookings db @ [b]" by (simp add: db'_def reserve_fields)
  have c4: "booking_status b = CONFIRMED" "payment_status b = UNPAID"
    "num_seats b = int (length ids)"
    by (simp_all add: b_def new_booking_def)
  have c5: "subtotal b = py_round2 (py_sum (map (calculate_price trip)
                       (filter (requested t ids) (seats db))))"
    by (simp add: b_def new_booking_def request_subtotal_def tid)
  have c6: "total_amount b = py_round2 (binary64 (subtotal b - discount_amount b))"
    by (simp add: b_def new_booking_def)
  from assms(2) trip have belong:
    "\<forall>sid\<in>set ids. \<exists>s\<in>set (seats db). Seat_id s = sid \<and> Seat_trip_id s = t"
    by (auto simp: passes_validations_def list_all_iff list_ex_iff split: option.splits)
  have c7: "\<forall>sid\<in>set ids. \<exists>s\<in>set (seats db'). Seat_id s = sid \<and> Seat_trip_id s = t"
  proof
    fix sid assume "sid \<in> set ids"
    with belong obtain s where s: "s \<in> set (seats db)" "Seat_id s = sid" "Seat_trip_id s = t"
      by blast
    let ?f = "\<lambda>s. if requested t ids s
                then s\<lparr> Seat_status := BOOKED, Seat_booking_id := Some (Booking_id b) \<rparr> else s"
    have "?f s \<in> set (seats db')" using s(1)
      by (simp add: db'_def reserve_fields set_update_where)
    moreover have "Seat_id (?f s) = sid" "Seat_trip_id (?f s) = t" using s by simp_all
    ultimately show "\<exists>s\<in>set (seats db'). Seat_id s = sid \<and> Seat_trip_id s = t" by blast
  qed
  have c8: "\<forall>s\<in>set (seats db'). requested t ids s \<longrightarrow>
           Seat_status s = BOOKED \<and> Seat_booking_id s = Some (Booking_id b)"
  proof (intro ballI impI)
    fix s assume s: "s \<in> set (seats db')" and r: "requested t ids s"
    have "set (seats db') = (\<lambda>s. if requested t ids s
        then s\<lparr> Seat_status := BOOKED, Seat_booking_id := Some (Booking_id b) \<rparr> else s)
        ` set (seats db)"
      by (simp add: db'_def reserve_fields set_update_where)
    with s obtain s0 where s0: "s = (if requested t ids s0
        then s0\<lparr> Seat_status := BOOKED, Seat_booking_id := Some (Booking_id b) \<rparr> else s0)"
      by blast
    show "Seat_status s = BOOKED \<and> Seat_booking_id s = Some (Booking_id b)"
    proof (cases "requested t ids s0")
      case True
      with s0 show ?thesis by simp
    next
      case False
      with s0 r show ?thesis by simp
    qed
  qed
  have c9: "query_get Trip_id (trips db') t
          = Some (trip\<lparr> available_seats := available_seats trip - int (length ids) \<rparr>)"
    using trip tid by (simp add: db'_def reserve_fields query_get_update_where)
  from apply_promo_cases [OF ap] have
    c10: "c = [] \<longrightarrow> discount_amount b = 0 \<and> promo_code_id b = None
                    \<and> promo_codes db' = promo_codes db"
    by (auto simp: b_def db'_def new_booking_def reserve_fields)
  have c11: "c \<noteq> [] \<longrightarrow>
          (\<exists>p. find (\<lambda>p. code p = c) (promo_codes db) = Some p
             \<and> discount_amount b = calculate_discount p (subtotal b)
             \<and> promo_code_id b = Some (PromoCode_id p)
             \<and> find (\<lambda>p. code p = c) (promo_codes db')
                  = Some (p\<lparr> used_count := used_count p + 1 \<rparr>))"
  proof
    assume "c \<noteq> []"
    with apply_promo_cases [OF ap] obtain p where
      p: "find (\<lambda>p. code p = c) (promo_codes db) = Some p" "promo = Some p"
        "discount = calculate_discount p (request_subtotal db trip ids)"
      by auto
    have "find (\<lambda>p. code p = c) (promo_codes db') = Some (p\<lparr> used_count := used_count p + 1 \<rparr>)"
      using p(1,2) by (simp add: db'_def reserve_fields find_update_where)
    with p show "\<exists>p. find (\<lambda>p. code p = c) (promo_codes db) = Some p
             \<and> discount_amount b = calculate_discount p (subtotal b)
             \<and> promo_code_id b = Some (PromoCode_id p)
             \<and> find (\<lambda>p. code p = c) (promo_codes db')
                  = Some (p\<lparr> used_count := used_count p + 1 \<rparr>)"
      by (simp add: b_def new_booking_def)
  qed
  show ?thesis
    apply (rule exI [of _ b], rule exI [of _ db'], rule exI [of _ trip])
    using c1 trip c3 c4 c5 c6 c7 c8 c9 c10 c11 apply (intro conjI)
                apply assumption+
    done
qed

text \<open>
  Claim C3. A booking request that is answered with an error leaves the database as it
  was: no booking row, no change of any seat, counter or usage count. And a request that
  fails any validation (on a database whose seat rows have unique ids) is answered with
  an error.
\<close>

theorem create_booking_failure_unchanged:
  "(\<forall>e db'. create_booking now u t ids c db = (Inl e, db') \<longrightarrow> db' = db)
   \<and> (seat_keys db \<and> \<not> passes_validations now u t ids c db \<longrightarrow>
        (\<exists>e. create_booking now u t ids c db = (Inl e, db)))"
  using create_booking_error_unchanged [of now u t ids c db]
    create_booking_failure [of db now u t ids c] by blast


text \<open>
  The theorem on the example database: user 1 books seats 1 and 2 with the code SAVE10.
\<close>

theorem create_booking_effects_witness:
  "seat_keys demo_db \<and> passes_validations 10 1 1 [1, 2] ''SAVE10'' demo_db
   \<and> (\<exists>b db'. create_booking 10 1 1 [1, 2] ''SAVE10'' demo_db = (Inr b, db')
         \<and> booking_status b = CONFIRMED \<and> payment_status b = UNPAID
         \<and> num_seats b = 2
         \<and> total_amount b = py_round2 (binary64 (subtotal b - discount_amount b))
         \<and> query_get Trip_id (trips db') 1 = Some (demo_trip\<lparr> available_seats := 1 \<rparr>)
         \<and> find (\<lambda>p. code p = ''SAVE10'') (promo_codes db') = Some (SAVE10\<lparr> used_count := 1 \<rparr>))"
proof -
  have k: "seat_keys demo_db" by (simp add: seat_keys_def demo_eval)
  have v: "passes_validations 10 1 1 [1, 2] ''SAVE10'' demo_db"
    by (simp add: all_eval demo_eval)
  have t: "query_get Trip_id (trips demo_db) 1 = Some demo_trip"
    by (simp add: query_get_def demo_eval)
  have p: "find (\<lambda>p. code p = ''SAVE10'') (promo_codes demo_db) = Some SAVE10"
    by (simp add: demo_eval)
  from create_booking_effects [OF k v] obtain b db' trip q where r:
    "create_booking 10 1 1 [1, 2] ''SAVE10'' demo_db = (Inr b, db')"
    "query_get Trip_id (trips demo_db) 1 = Some trip"
    "booking_status b = CONFIRMED" "payment_status b = UNPAID"
    "num_seats b = int (length [1::int, 2])"
    "total_amount b = py_round2 (binary64 (subtotal b - discount_amount b))"
    "query_get Trip_id (trips db') 1
       = Some (trip\<lparr> available_seats := available_seats trip - int (length [1::int, 2]) \<rparr>)"
    "find (\<lambda>p. code p = ''SAVE10'') (promo_codes demo_db) = Some q"
    "find (\<lambda>p. code p = ''SAVE10'') (promo_codes db') = Some (q\<lparr> used_count := used_count q + 1 \<rparr>)"
    by (elim exE conjE) auto
  from r(2) t have "trip = demo_trip" by simp
  moreover from r(8) p have "q = SAVE10" by simp
  ultimately have
    "query_get Trip_id (trips db') 1 = Some (demo_trip\<lparr> available_seats := 1 \<rparr>)"
    "find (\<lambda>p. code p = ''SAVE10'') (promo_codes db') = Some (SAVE10\<lparr> used_count := 1 \<rparr>)"
    using r(7,9) by (simp_all add: demo_trip_def SAVE10_def)
  with r(1,3,4,5,6) k v show ?thesis by auto
qed

text \<open>
  Claim C2 as stated fails. Seat 2 has the multiplier 1.25 on a base fare of 100.50: the
  sum is 125.625 and the booking is created with the subtotal 125.62.
\<close>

theorem subtotal_rounded_counterexample:
  "passes_validations 10 1 1 [2] [] demo_db
   \<and> exact_subtotal demo_db demo_trip [2] = 125625 / 1000
   \<and> fst (create_booking 10 1 1 [2] [] demo_db)
       = Inr \<lparr> Booking_id = 1, Booking_user_id = 1, Booking_trip_id = 1, promo_code_id = None,
               subtotal = binary64 (12562 / 100), discount_amount = 0,
               total_amount = binary64 (12562 / 100), booking_status = CONFIRMED,
               payment_status = UNPAID, num_seats = 1 \<rparr>
   \<and> binary64 (12562 / 100) \<noteq> exact_subtotal demo_db demo_trip [2]
   \<and> binary64 (12562 / 100) \<noteq> binary64 (exact_subtotal demo_db demo_trip [2])"
proof -
  let ?b = "new_booking demo_db 1 1 [2] (request_subtotal demo_db demo_trip [2]) None 0"
  have v: "passes_validations 10 1 1 [2] [] demo_db"
    by (simp add: all_eval demo_eval)
  have x: "exact_subtotal demo_db demo_trip [2] = 125625 / 1000"
    by (simp add: exact_subtotal_def requested_def demo_eval)
  have c: "create_booking 10 1 1 [2] [] demo_db = (Inr ?b, reserve ?b 1 [2] None demo_db)"
    by (simp add: create_booking_def apply_promo_def validate_seat_selection_def query_get_def
        requested_def request_subtotal_def Let_def demo_eval)
  have s: "request_subtotal demo_db demo_trip [2] = binary64 (12562 / 100)"
    by (simp add: request_subtotal_def requested_def calculate_price_def float_eval demo_eval)
  have r: "py_round2 (binary64 (binary64 (12562 / 100) - 0)) = binary64 (12562 / 100)"
    by (simp add: float_eval)
  have b: "?b = \<lparr> Booking_id = 1, Booking_user_id = 1, Booking_trip_id = 1, promo_code_id = None,
               subtotal = binary64 (12562 / 100), discount_amount = 0,
               total_amount = binary64 (12562 / 100), booking_status = CONFIRMED,
               payment_status = UNPAID, num_seats = 1 \<rparr>"
    unfolding s new_booking_def r by (simp add: next_id_def demo_eval)
  have n1: "binary64 (12562 / 100) \<noteq> 125625 / 1000" by (simp add: float_eval)
  have n2: "binary64 (125625 / 1000) = 125625 / 1000" by (simp add: float_eval)
  have d1: "binary64 (12562 / 100) \<noteq> exact_subtotal demo_db demo_trip [2]"
    unfolding x by (rule n1)
  have d2: "binary64 (12562 / 100) \<noteq> binary64 (exact_subtotal demo_db demo_trip [2])"
    unfolding x n2 by (rule n1)
  have f: "fst (create_booking 10 1 1 [2] [] demo_db) = Inr ?b"
    unfolding c by (rule fst_conv)
  show ?thesis
    apply (intro conjI)
        apply (rule v)
       apply (rule x)
      apply (rule trans [OF f])
      apply (rule arg_cong [where f = Inr])
      apply (rule b)
     apply (rule d1)
    apply (rule d2)
    done
qed

text \<open>
  The theorem on the example database: a request made after the departure of the trip.
\<close>

theorem create_booking_failure_unchanged_witness:
  "seat_keys demo_db \<and> \<not> passes_validations 2000 1 1 [1] [] demo_db
   \<and> (\<exists>e. create_booking 2000 1 1 [1] [] demo_db = (Inl e, demo_db))
   \<and> create_booking 2000 1 1 [1] [] demo_db = (Inl TripDeparted, demo_db)"
proof -
  have k: "seat_keys demo_db" by (simp add: seat_keys_def demo_eval)
  have v: "\<not> passes_validations 2000 1 1 [1] [] demo_db"
    by (simp add: passes_validations_def query_get_def demo_eval)
  have e: "create_booking 2000 1 1 [1] [] demo_db = (Inl TripDeparted, demo_db)"
    by (simp add: op_eval demo_eval)
  from create_booking_failure_unchanged [of 2000 1 1 "[1]" "[]" demo_db] k v
  have "\<exists>e. create_booking 2000 1 1 [1] [] demo_db = (Inl e, demo_db)" by blast
  with k v e show ?thesis by blast
qed

section \<open>Cancelling a booking\<close>

lemma in_set_update_whereD:
  "s \<in> set (update_where P f rows) \<Longrightarrow> \<exists>s0\<in>set rows. s = (if P s0 then f s0 else s0)"
  unfolding set_update_where by blast

lemma cancel_booking_error_unchanged:
  "cancel_booking now u bid db = (Inl e, db') \<Longrightarrow> db' = db"
  by (simp add: cancel_booking_def Let_def split: option.splits if_splits)

lemma cancel_booking_InrD:
  assumes "cancel_booking now u bid db = (Inr b', db')"
  obtains booking trip where
    "query_get Booking_id (bookings db) bid = Some booking"
    "Booking_user_id booking = u"
    "booking_status booking \<noteq> CANCELLED" "booking_status booking \<noteq> COMPLETED"
    "query_get Trip_id (trips db) (Booking_trip_id booking) = Some trip"
    "\<not> departure_time trip < now"
    "b' = cancelled booking"
    "bookings db' = update_where (\<lambda>b. Booking_id b = bid) cancelled (bookings db)"
    "seats db' = release_seats bid (seats db)"
    "trips db' = update_where (\<lambda>t. Trip_id t = Booking_trip_id booking)
                   (\<lambda>t. t\<lparr> available_seats := available_seats t + num_seats booking \<rparr>) (trips db)"
    "promo_codes db' = release_usage booking (promo_codes db)"
    "users db' = users db" "payments db' = payments db"
proof -
  from assms obtain booking where b: "query_get Booking_id (bookings db) bid = Some booking"
    by (auto simp: cancel_booking_def split: option.splits)
  from assms b have g: "Booking_user_id booking = u"
    "booking_status booking \<noteq> CANCELLED" "booking_status booking \<noteq> COMPLETED"
    by (auto simp: cancel_booking_def split: if_splits)
  from assms b g obtain trip where
    t: "query_get Trip_id (trips db) (Booking_trip_id booking) = Some trip"
    by (auto simp: cancel_booking_def split: option.splits)
  from assms b g t have d: "\<not> departure_time trip < now"
    by (auto simp: cancel_booking_def split: if_splits)
  from assms b g t d have r: "b' = cancelled booking"
    "bookings db' = update_where (\<lambda>b. Booking_id b = bid) cancelled (bookings db)"
    "seats db' = release_seats bid (seats db)"
    "trips db' = update_where (\<lambda>t. Trip_id t = Booking_trip_id booking)
                   (\<lambda>t. t\<lparr> available_seats := available_seats t + num_seats booking \<rparr>) (trips db)"
    "promo_codes db' = release_usage booking (promo_codes db)"
    "users db' = users db" "payments db' = payments db"
    by (auto simp: cancel_booking_def Let_def)
  from b g t d r that show thesis by blast
qed

lemma new_booking_fields:
  "Booking_id (new_booking db u t ids sub promo discount) = next_id (map Booking_id (bookings db))"
  "Booking_user_id (new_booking db u t ids sub promo discount) = u"
  "Booking_trip_id (new_booking db u t ids sub promo discount) = t"
  "promo_code_id (new_booking db u t ids sub promo discount) = map_option PromoCode_id promo"
  "num_seats (new_booking db u t ids sub promo discount) = int (length ids)"
  "booking_status (new_booking db u t ids sub promo discount) = CONFIRMED"
  "payment_status (new_booking db u t ids sub promo discount) = UNPAID"
  by (simp_all add: new_booking_def)

text \<open>
  Claim C4. When a booking for the seat ids \<open>ids\<close> on trip \<open>t\<close> has been created and
  is then cancelled: after the creation the counter of the trip is its old value minus
  the number of seats, after the cancellation the trip row is as it was before the
  creation, and all the requested seats are there, available, with no back-reference.
\<close>

theorem create_then_cancel_restores:
  assumes "create_booking now u t ids c db = (Inr b, db1)"
    and "cancel_booking now' u' (Booking_id b) db1 = (Inr b', db2)"
  shows "\<exists>trip.
      query_get Trip_id (trips db) t = Some trip
    \<and> query_get Trip_id (trips db1) t
          = Some (trip\<lparr> available_seats := available_seats trip - int (length ids) \<rparr>)
    \<and> query_get Trip_id (trips db2) t = Some trip
    \<and> length (filter (requested t ids) (seats db2)) = length ids
    \<and> (\<forall>s\<in>set (seats db2). requested t ids s \<longrightarrow>
           Seat_status s = AVAILABLE \<and> Seat_booking_id s = None)"
proof -
  from assms(1) obtain trip promo discount where
    trip: "query_get Trip_id (trips db) t = Some trip"
    and len: "length (filter (requested t ids) (seats db)) = length ids"
    and b: "b = new_booking db u t ids (request_subtotal db trip ids) promo discount"
    and db1: "db1 = reserve b t ids promo db"
    by (rule create_booking_InrD)
  have tid: "Trip_id trip = t" using trip by (auto dest: query_get_SomeD)
  have bid: "Booking_id b = next_id (map Booking_id (bookings db))"
    and bt: "Booking_trip_id b = t" and bn: "num_seats b = int (length ids)"
    by (simp_all add: b new_booking_fields)
  have found: "query_get Booking_id (bookings db1) (Booking_id b) = Some b"
    using bid by (simp add: db1 reserve_fields query_get_append_fresh)
  from assms(2) obtain booking where
    bk: "query_get Booking_id (bookings db1) (Booking_id b) = Some booking"
    and s2: "seats db2 = release_seats (Booking_id b) (seats db1)"
    and t2: "trips db2 = update_where (\<lambda>t. Trip_id t = Booking_trip_id booking)
                   (\<lambda>t. t\<lparr> available_seats := available_seats t + num_seats booking \<rparr>) (trips db1)"
    by (rule cancel_booking_InrD)
  from bk found have same: "booking = b" by simp
  have q1: "query_get Trip_id (trips db1) t
          = Some (trip\<lparr> available_seats := available_seats trip - int (length ids) \<rparr>)"
    using trip tid by (simp add: db1 reserve_fields query_get_update_where)
  have q2: "query_get Trip_id (trips db2) t = Some trip"
    using q1 tid by (simp add: t2 same bt bn query_get_update_where)
  let ?f = "\<lambda>s. if requested t ids s
              then s\<lparr> Seat_status := BOOKED, Seat_booking_id := Some (Booking_id b) \<rparr> else s"
  let ?g = "\<lambda>s. if Seat_booking_id s = Some (Booking_id b)
              then s\<lparr> Seat_status := AVAILABLE, Seat_booking_id := None \<rparr> else s"
  have seats2: "seats db2 = map (\<lambda>s. ?g (?f s)) (seats db)"
    by (simp add: s2 db1 reserve_fields release_seats_def update_where_def)
  have req: "requested t ids (?g (?f s)) = requested t ids s" for s
    by (simp add: requested_def)
  have l2: "length (filter (requested t ids) (seats db2)) = length ids"
    using len by (simp add: seats2 filter_map o_def req)
  have rel: "\<forall>s\<in>set (seats db2). requested t ids s \<longrightarrow>
           Seat_status s = AVAILABLE \<and> Seat_booking_id s = None"
  proof (intro ballI impI)
    fix s assume m: "s \<in> set (seats db2)" and r: "requested t ids s"
    from m have "s \<in> (\<lambda>s. ?g (?f s)) ` set (seats db)" by (simp only: seats2 set_map)
    then obtain s0 where s0: "s = ?g (?f s0)" by blast
    with r req [of s0] have "requested t ids s0" by simp
    with s0 show "Seat_status s = AVAILABLE \<and> Seat_booking_id s = None" by simp
  qed
  from trip q1 q2 l2 rel show ?thesis by blast
qed

text \<open>
  The theorem on the example database: user 1 books seats 1 and 2 and cancels.
\<close>

theorem create_then_cancel_restores_witness:
  "\<exists>b db1 b' db2.
      create_booking 10 1 1 [1, 2] [] demo_db = (Inr b, db1)
    \<and> cancel_booking 20 1 (Booking_id b) db1 = (Inr b', db2)
    \<and> query_get Trip_id (trips demo_db) 1 = Some demo_trip
    \<and> query_get Trip_id (trips db1) 1 = Some (demo_trip\<lparr> available_seats := 1 \<rparr>)
    \<and> query_get Trip_id (trips db2) 1 = Some demo_trip
    \<and> length (filter (requested 1 [1, 2]) (seats db2)) = 2
    \<and> (\<forall>s\<in>set (seats db2). requested 1 [1, 2] s \<longrightarrow>
           Seat_status s = AVAILABLE \<and> Seat_booking_id s = None)"
proof -
  let ?b = "new_booking demo_db 1 1 [1, 2] (request_subtotal demo_db demo_trip [1, 2]) None 0"
  let ?db1 = "reserve ?b 1 [1, 2] None demo_db"
  have c: "create_booking 10 1 1 [1, 2] [] demo_db = (Inr ?b, ?db1)"
    by (simp add: create_booking_def apply_promo_def validate_seat_selection_def query_get_def
        requested_def request_subtotal_def Let_def demo_eval)
  have "\<exists>b' db2. cancel_booking 20 1 (Booking_id ?b) ?db1 = (Inr b', db2)"
    by (simp add: cancel_booking_def new_booking_def reserve_def query_get_def update_where_def
        next_id_def requested_def Let_def demo_eval)
  then obtain b' db2 where x: "cancel_booking 20 1 (Booking_id ?b) ?db1 = (Inr b', db2)"
    by blast
  have t: "query_get Trip_id (trips demo_db) 1 = Some demo_trip"
    by (simp add: query_get_def demo_eval)
  from create_then_cancel_restores [OF c x] t have
    "query_get Trip_id (trips ?db1) 1 = Some (demo_trip\<lparr> available_seats := 1 \<rparr>)"
    "query_get Trip_id (trips db2) 1 = Some demo_trip"
    "length (filter (requested 1 [1, 2]) (seats db2)) = 2"
    "\<forall>s\<in>set (seats db2). requested 1 [1, 2] s \<longrightarrow>
           Seat_status s = AVAILABLE \<and> Seat_booking_id s = None"
    by (auto simp: demo_trip_def)
  with c x t show ?thesis by blast
qed

section \<open>Promo code usage\<close>

lemma length_filter_update_where:
  assumes "\<And>r. Q (f r) = Q r"
  shows "length (filter Q (update_where P f rows)) = length (filter Q rows)"
  using assms by (induction rows) (simp_all add: update_where_def)

lemma user_usage_id:
  "PromoCode_id p' = PromoCode_id p \<Longrightarrow> user_usage bs p' u = user_usage bs p u"
  by (simp add: user_usage_def)

lemma cancelled_fields [simp]:
  "Booking_id (cancelled b) = Booking_id b"
  "Booking_user_id (cancelled b) = Booking_user_id b"
  "Booking_trip_id (cancelled b) = Booking_trip_id b"
  "promo_code_id (cancelled b) = promo_code_id b"
  "num_seats (cancelled b) = num_seats b"
  "booking_status (cancelled b) = CANCELLED"
  by (simp_all add: cancelled_def)

lemma create_booking_with_code:
  assumes "create_booking now u t ids c db = (Inr b, db')" and "c \<noteq> []"
    and "find (\<lambda>p. code p = c) (promo_codes db) = Some p"
  shows "find (\<lambda>p. code p = c) (promo_codes db') = Some (p\<lparr> used_count := used_count p + 1 \<rparr>)"
    and "bookings db' = bookings db @ [b]"
    and "Booking_id b = next_id (map Booking_id (bookings db))"
    and "promo_code_id b = Some (PromoCode_id p)"
    and "Booking_user_id b = u"
    and "is_valid now p = None"
    and "check_user_eligibility (bookings db) p u = None"
proof -
  from assms(1) obtain trip promo discount where
    ap: "apply_promo now db u c (request_subtotal db trip ids) = Inr (promo, discount)"
    and b: "b = new_booking db u t ids (request_subtotal db trip ids) promo discount"
    and db': "db' = reserve b t ids promo db"
    by (rule create_booking_InrD)
  from apply_promo_cases [OF ap] assms(2,3) have pr: "promo = Some p"
    and v: "is_valid now p = None" "check_user_eligibility (bookings db) p u = None"
    by auto
  show "find (\<lambda>p. code p = c) (promo_codes db') = Some (p\<lparr> used_count := used_count p + 1 \<rparr>)"
    using assms(3) by (simp add: db' pr reserve_fields find_update_where)
  show "bookings db' = bookings db @ [b]" by (simp add: db' reserve_fields)
  show "Booking_id b = next_id (map Booking_id (bookings db))" by (simp add: b new_booking_fields)
  show "promo_code_id b = Some (PromoCode_id p)" by (simp add: b pr new_booking_fields)
  show "Booking_user_id b = u" by (simp add: b new_booking_fields)
  show "is_valid now p = None" "check_user_eligibility (bookings db) p u = None" by (rule v)+
qed

lemma find_release_usage:
  assumes "find (\<lambda>p. code p = c) rows = Some p"
  shows "\<exists>p'. find (\<lambda>p. code p = c) (release_usage booking rows) = Some p'
           \<and> (p' = p \<or> p' = p\<lparr> used_count := max 0 (used_count p - 1) \<rparr>)"
  using assms
  by (auto simp: release_usage_def find_update_where split: option.splits)

lemma find_release_usage_hit:
  assumes "find (\<lambda>p. code p = c) rows = Some p"
    and "promo_code_id booking = Some (PromoCode_id p)" and "PromoCode_id p \<noteq> 0"
  shows "find (\<lambda>p. code p = c) (release_usage booking rows)
           = Some (p\<lparr> used_count := max 0 (used_count p - 1) \<rparr>)"
proof -
  from assms(1) have "p \<in> set rows" by (auto simp: find_Some_iff in_set_conv_nth)
  then have "query_get PromoCode_id rows (PromoCode_id p) \<noteq> None"
    by (auto simp: query_get_def find_None_iff)
  then obtain q where q: "query_get PromoCode_id rows (PromoCode_id p) = Some q" by blast
  then have "PromoCode_id q = PromoCode_id p" by (auto dest: query_get_SomeD)
  with q assms show ?thesis by (simp add: release_usage_def find_update_where)
qed

lemma cancel_booking_lookup:
  assumes "cancel_booking now u bid db = (Inr b', db')"
  shows "query_get Booking_id (bookings db') i
       = map_option (\<lambda>r. if Booking_id r = bid then cancelled r else r)
           (query_get Booking_id (bookings db) i)"
proof -
  from assms have "bookings db' = update_where (\<lambda>b. Booking_id b = bid) cancelled (bookings db)"
    by (rule cancel_booking_InrD)
  then show ?thesis by (simp add: query_get_update_where)
qed

lemma cancel_booking_user_usage:
  assumes "cancel_booking now u' bid db = (r, db')"
  shows "user_usage (bookings db') p u = user_usage (bookings db) p u"
proof (cases r)
  case (Inl e)
  with assms cancel_booking_error_unchanged show ?thesis by blast
next
  case (Inr b')
  with assms have "bookings db' = update_where (\<lambda>b. Booking_id b = bid) cancelled (bookings db)"
    by (auto elim: cancel_booking_InrD)
  then show ?thesis by (simp add: user_usage_def length_filter_update_where)
qed

lemma run_creates_ConsD:
  assumes "run_creates c ((now, u, t, ids) # reqs) db = Some (bs, db1)"
  obtains b db' bs' where "create_booking now u t ids c db = (Inr b, db')"
    "run_creates c reqs db' = Some (bs', db1)" "bs = b # bs'"
  using assms by (auto split: prod.splits sum.splits option.splits)

lemma run_cancels_ConsD:
  assumes "run_cancels ((now, u, bid) # cs) db = Some db2"
  obtains b' db' where "cancel_booking now u bid db = (Inr b', db')"
    "run_cancels cs db' = Some db2"
  using assms by (auto split: prod.splits sum.splits)

lemma run_creates_used_count:
  assumes "find (\<lambda>p. code p = c) (promo_codes db) = Some p" and "c \<noteq> []"
    and "run_creates c reqs db = Some (bs, db1)"
  shows "find (\<lambda>p. code p = c) (promo_codes db1)
           = Some (p\<lparr> used_count := used_count p + int (length reqs) \<rparr>)
       \<and> length bs = length reqs
       \<and> (\<forall>l. usage_limit p = Some l \<longrightarrow> used_count p \<le> l
              \<longrightarrow> used_count p + int (length reqs) \<le> l)"
  using assms
proof (induction reqs arbitrary: db p bs)
  case Nil
  then show ?case by simp
next
  case (Cons req reqs)
  obtain now u t ids where req: "req = (now, u, t, ids)" by (cases req)
  from Cons.prems(3) obtain b db' bs' where
    cr: "create_booking now u t ids c db = (Inr b, db')"
    and rest: "run_creates c reqs db' = Some (bs', db1)" and bs: "bs = b # bs'"
    unfolding req by (rule run_creates_ConsD)
  let ?p = "p\<lparr> used_count := used_count p + 1 \<rparr>"
  from create_booking_with_code [OF cr Cons.prems(2,1)]
  have f: "find (\<lambda>p. code p = c) (promo_codes db') = Some ?p"
    and v: "is_valid now p = None" by blast+
  from Cons.IH [OF f Cons.prems(2) rest] have
    ih1: "find (\<lambda>p. code p = c) (promo_codes db1)
           = Some (?p\<lparr> used_count := used_count ?p + int (length reqs) \<rparr>)"
    and ih2: "length bs' = length reqs"
    and ih3: "\<forall>l. usage_limit ?p = Some l \<longrightarrow> used_count ?p \<le> l
              \<longrightarrow> used_count ?p + int (length reqs) \<le> l"
    by blast+
  have lim: "\<forall>l. usage_limit p = Some l \<longrightarrow> used_count p + 1 \<le> l"
    using v by (auto simp: is_valid_def split: if_splits option.splits)
  have "used_count p + 1 + int (length reqs) = used_count p + int (length (req # reqs))"
    by simp
  with ih1 have g1: "find (\<lambda>p. code p = c) (promo_codes db1)
           = Some (p\<lparr> used_count := used_count p + int (length (req # reqs)) \<rparr>)"
    by simp
  have g3: "\<forall>l. usage_limit p = Some l \<longrightarrow> used_count p \<le> l
              \<longrightarrow> used_count p + int (length (req # reqs)) \<le> l"
    using ih3 lim by auto
  from g1 ih2 bs g3 show ?case by simp
qed

lemma run_creates_lookup:
  assumes "find (\<lambda>p. code p = c) (promo_codes db) = Some p" and "c \<noteq> []"
    and "run_creates c reqs db = Some (bs, db1)"
    and "\<forall>x. query_get Booking_id (bookings db) i = Some x
            \<longrightarrow> promo_code_id x = Some (PromoCode_id p)"
  shows "\<forall>x. query_get Booking_id (bookings db1) i = Some x
            \<longrightarrow> promo_code_id x = Some (PromoCode_id p)"
  using assms
proof (induction reqs arbitrary: db p bs)
  case Nil
  then show ?case by simp
next
  case (Cons req reqs)
  obtain now u t ids where req: "req = (now, u, t, ids)" by (cases req)
  from Cons.prems(3) obtain b db' bs' where
    cr: "create_booking now u t ids c db = (Inr b, db')"
    and rest: "run_creates c reqs db' = Some (bs', db1)" and bs: "bs = b # bs'"
    unfolding req by (rule run_creates_ConsD)
  let ?p = "p\<lparr> used_count := used_count p + 1 \<rparr>"
  note w = create_booking_with_code [OF cr Cons.prems(2,1)]
  have "\<forall>x. query_get Booking_id (bookings db') i = Some x
            \<longrightarrow> promo_code_id x = Some (PromoCode_id ?p)"
    using Cons.prems(4) w(3,4) by (simp add: w(2) query_get_append_fresh)
  from Cons.IH [OF w(1) Cons.prems(2) rest this] show ?case by simp
qed

lemma run_creates_created:
  assumes "find (\<lambda>p. code p = c) (promo_codes db) = Some p" and "c \<noteq> []"
    and "run_creates c reqs db = Some (bs, db1)" and "b \<in> set bs"
  shows "\<forall>x. query_get Booking_id (bookings db1) (Booking_id b) = Some x
            \<longrightarrow> promo_code_id x = Some (PromoCode_id p)"
  using assms
proof (induction reqs arbitrary: db p bs)
  case Nil
  then show ?case by simp
next
  case (Cons req reqs)
  obtain now u t ids where req: "req = (now, u, t, ids)" by (cases req)
  from Cons.prems(3) obtain b0 db' bs' where
    cr: "create_booking now u t ids c db = (Inr b0, db')"
    and rest: "run_creates c reqs db' = Some (bs', db1)" and bs: "bs = b0 # bs'"
    unfolding req by (rule run_creates_ConsD)
  let ?p = "p\<lparr> used_count := used_count p + 1 \<rparr>"
  note w = create_booking_with_code [OF cr Cons.prems(2,1)]
  show ?case
  proof (cases "b = b0")
    case True
    have "\<forall>x. query_get Booking_id (bookings db') (Booking_id b) = Some x
            \<longrightarrow> promo_code_id x = Some (PromoCode_id ?p)"
      using True w(3,4) by (simp add: w(2) query_get_append_fresh)
    from run_creates_lookup [OF w(1) Cons.prems(2) rest this] show ?thesis by simp
  next
    case False
    with Cons.prems(4) bs have "b \<in> set bs'" by simp
    from Cons.IH [OF w(1) Cons.prems(2) rest this] show ?thesis by simp
  qed
qed

lemma run_cancels_used_count:
  assumes "find (\<lambda>p. code p = c) (promo_codes db) = Some p" and "PromoCode_id p \<noteq> 0"
    and "run_cancels cs db = Some db2"
    and "\<forall>(now, u, bid)\<in>set cs. \<forall>x. query_get Booking_id (bookings db) bid = Some x
            \<longrightarrow> promo_code_id x = Some (PromoCode_id p)"
    and "int (length cs) \<le> used_count p"
  shows "find (\<lambda>p. code p = c) (promo_codes db2)
           = Some (p\<lparr> used_count := used_count p - int (length cs) \<rparr>)"
  using assms
proof (induction cs arbitrary: db p)
  case Nil
  then show ?case by simp
next
  case (Cons cn cs)
  obtain now u bid where cn: "cn = (now, u, bid)" by (cases cn)
  from Cons.prems(3) obtain b' db' where
    ca: "cancel_booking now u bid db = (Inr b', db')"
    and rest: "run_cancels cs db' = Some db2"
    unfolding cn by (rule run_cancels_ConsD)
  from ca obtain booking where
    bk: "query_get Booking_id (bookings db) bid = Some booking"
    and pc: "promo_codes db' = release_usage booking (promo_codes db)"
    by (rule cancel_booking_InrD)
  from Cons.prems(4) bk have pr: "promo_code_id booking = Some (PromoCode_id p)"
    by (auto simp: cn)
  let ?p = "p\<lparr> used_count := used_count p - 1 \<rparr>"
  from Cons.prems(5) have pos: "1 \<le> used_count p" by simp
  have f: "find (\<lambda>p. code p = c) (promo_codes db') = Some ?p"
    using find_release_usage_hit [OF Cons.prems(1) pr Cons.prems(2)] pos by (simp add: pc max_def)
  have j: "\<forall>(now, u, bid)\<in>set cs. \<forall>x. query_get Booking_id (bookings db') bid = Some x
            \<longrightarrow> promo_code_id x = Some (PromoCode_id ?p)"
    using Cons.prems(4) by (auto simp: cancel_booking_lookup [OF ca])
  have "find (\<lambda>p. code p = c) (promo_codes db2)
           = Some (?p\<lparr> used_count := used_count ?p - int (length cs) \<rparr>)"
    using Cons.IH [OF f _ rest j] Cons.prems(2,5) by simp
  moreover have "used_count p - 1 - int (length cs) = used_count p - int (length (cn # cs))"
    by simp
  ultimately show ?case by simp
qed

text \<open>
  Claim C9. Take a promo code with a (non-zero) id and a usage count that is not
  negative. After any sequence of N successful booking creates that supply the code,
  followed by M \<open>\<le>\<close> N successful cancellations of bookings among those created, the usage
  count of the code is its old value plus N minus M (so N - M for a code that had not
  been used); it is not negative; and when a usage limit is set and was respected at the
  start, it does not exceed the limit.
\<close>

theorem promo_counter_conservation:
  assumes "find (\<lambda>p. code p = c) (promo_codes db) = Some p" and "c \<noteq> []"
    and "PromoCode_id p \<noteq> 0" and "0 \<le> used_count p"
    and "run_creates c reqs db = Some (bs, db1)"
    and "run_cancels cs db1 = Some db2"
    and "\<forall>(now, u, bid)\<in>set cs. bid \<in> Booking_id ` set bs"
    and "length cs \<le> length reqs"
  shows "find (\<lambda>p. code p = c) (promo_codes db2)
           = Some (p\<lparr> used_count := used_count p + int (length reqs) - int (length cs) \<rparr>)
       \<and> 0 \<le> used_count p + int (length reqs) - int (length cs)
       \<and> (\<forall>l. usage_limit p = Some l \<longrightarrow> used_count p \<le> l
              \<longrightarrow> used_count p + int (length reqs) - int (length cs) \<le> l)"
proof -
  let ?p1 = "p\<lparr> used_count := used_count p + int (length reqs) \<rparr>"
  from run_creates_used_count [OF assms(1,2,5)] have
    f1: "find (\<lambda>p. code p = c) (promo_codes db1) = Some ?p1"
    and lim: "\<forall>l. usage_limit p = Some l \<longrightarrow> used_count p \<le> l
              \<longrightarrow> used_count p + int (length reqs) \<le> l"
    by blast+
  have j: "\<forall>(now, u, bid)\<in>set cs. \<forall>x. query_get Booking_id (bookings db1) bid = Some x
            \<longrightarrow> promo_code_id x = Some (PromoCode_id ?p1)"
  proof (intro ballI, clarify)
    fix now u bid x
    assume m: "(now, u, bid) \<in> set cs" and q: "query_get Booking_id (bookings db1) bid = Some x"
    from assms(7) m obtain b where b: "b \<in> set bs" "bid = Booking_id b" by auto
    from run_creates_created [OF assms(1,2,5) b(1)] q b(2)
    show "promo_code_id x = Some (PromoCode_id ?p1)" by simp
  qed
  have le: "int (length cs) \<le> used_count ?p1" using assms(4,8) by simp
  from run_cancels_used_count [OF f1 _ assms(6) j le] assms(3)
  have "find (\<lambda>p. code p = c) (promo_codes db2)
           = Some (p\<lparr> used_count := used_count p + int (length reqs) - int (length cs) \<rparr>)"
    by simp
  moreover have "0 \<le> used_count p + int (length reqs) - int (length cs)"
    using assms(4,8) by simp
  moreover have "\<forall>l. usage_limit p = Some l \<longrightarrow> used_count p \<le> l
              \<longrightarrow> used_count p + int (length reqs) - int (length cs) \<le> l"
    using lim by auto
  ultimately show ?thesis by blast
qed

text \<open>
  The theorem on the example database: users 1 and 2 each book a seat with the code
  HALF50, then user 1 cancels; the usage count of the code is 1.
\<close>

theorem promo_counter_conservation_witness:
  "\<exists>bs db1 db2.
      find (\<lambda>p. code p = ''HALF50'') (promo_codes demo_db) = Some HALF50
    \<and> run_creates ''HALF50'' [(10, 1, 1, [1]), (11, 2, 1, [2])] demo_db = Some (bs, db1)
    \<and> run_cancels [(20, 1, 1)] db1 = Some db2
    \<and> map Booking_id bs = [1, 2]
    \<and> find (\<lambda>p. code p = ''HALF50'') (promo_codes db2) = Some (HALF50\<lparr> used_count := 1 \<rparr>)"
proof -
  have f: "find (\<lambda>p. code p = ''HALF50'') (promo_codes demo_db) = Some HALF50"
    by (simp add: demo_eval)
  have "\<exists>bs db1 db2.
      run_creates ''HALF50'' [(10, 1, 1, [1]), (11, 2, 1, [2])] demo_db = Some (bs, db1)
    \<and> run_cancels [(20, 1, 1)] db1 = Some db2 \<and> map Booking_id bs = [1, 2]"
    by (simp add: op_eval demo_eval)
  then obtain bs db1 db2 where r:
    "run_creates ''HALF50'' [(10, 1, 1, [1]), (11, 2, 1, [2])] demo_db = Some (bs, db1)"
    "run_cancels [(20, 1, 1)] db1 = Some db2" "map Booking_id bs = [1, 2]"
    by (elim exE conjE) (rule that)
  from r(3) have ids: "Booking_id ` set bs = {1, 2}"
    by (metis list.set_map list.simps(15) empty_set)
  have "find (\<lambda>p. code p = ''HALF50'') (promo_codes db2)
           = Some (HALF50\<lparr> used_count := used_count HALF50
               + int (length [(10 :: int, 1 :: int, 1 :: int, [1 :: int]), (11, 2, 1, [2])])
               - int (length [(20 :: int, 1 :: int, 1 :: int)]) \<rparr>)"
    using promo_counter_conservation [OF f _ _ _ r(1,2)] ids
    by (simp add: HALF50_def)
  then have fin: "find (\<lambda>p. code p = ''HALF50'') (promo_codes db2) = Some (HALF50\<lparr> used_count := 1 \<rparr>)"
    by (simp add: HALF50_def)
  show ?thesis
    apply (rule exI [of _ bs], rule exI [of _ db1], rule exI [of _ db2])
    apply (intro conjI)
        apply (rule f, rule r(1), rule r(2), rule r(3), rule fin)
    done
qed

lemma run_creates_user_usage:
  assumes "find (\<lambda>p. code p = c) (promo_codes db) = Some p" and "c \<noteq> []"
    and "run_creates c reqs db = Some (bs, db1)"
    and "\<forall>(now', u', t', ids')\<in>set reqs. u' = u"
  shows "user_usage (bookings db1) p u = user_usage (bookings db) p u + int (length reqs)"
  using assms
proof (induction reqs arbitrary: db p bs)
  case Nil
  then show ?case by simp
next
  case (Cons req reqs)
  obtain now u0 t ids where req: "req = (now, u0, t, ids)" by (cases req)
  from Cons.prems(4) have u0: "u0 = u" and rest_u: "\<forall>(now', u', t', ids')\<in>set reqs. u' = u"
    by (auto simp: req)
  from Cons.prems(3) obtain b db' bs' where
    cr: "create_booking now u t ids c db = (Inr b, db')"
    and rest: "run_creates c reqs db' = Some (bs', db1)"
    unfolding req u0 by (rule run_creates_ConsD)
  let ?p = "p\<lparr> used_count := used_count p + 1 \<rparr>"
  note w = create_booking_with_code [OF cr Cons.prems(2,1)]
  have step: "user_usage (bookings db') p u = user_usage (bookings db) p u + 1"
    using w(4,5) by (simp add: w(2) user_usage_def)
  from Cons.IH [OF w(1) Cons.prems(2) rest rest_u]
  have "user_usage (bookings db1) ?p u = user_usage (bookings db') ?p u + int (length reqs)" .
  then have "user_usage (bookings db1) p u = user_usage (bookings db') p u + int (length reqs)"
    by (simp add: user_usage_def)
  with step show ?case by simp
qed

lemma run_cancels_promo:
  assumes "find (\<lambda>p. code p = c) (promo_codes db) = Some p"
    and "run_cancels cs db = Some db2"
  shows "\<exists>p2. find (\<lambda>p. code p = c) (promo_codes db2) = Some p2
           \<and> PromoCode_id p2 = PromoCode_id p \<and> usage_per_user p2 = usage_per_user p
           \<and> user_usage (bookings db2) p u = user_usage (bookings db) p u"
  using assms
proof (induction cs arbitrary: db p)
  case Nil
  then show ?case by simp
next
  case (Cons cn cs)
  obtain now u0 bid where cn: "cn = (now, u0, bid)" by (cases cn)
  from Cons.prems(2) obtain b' db' where
    ca: "cancel_booking now u0 bid db = (Inr b', db')"
    and rest: "run_cancels cs db' = Some db2"
    unfolding cn by (rule run_cancels_ConsD)
  from ca obtain booking where
    pc: "promo_codes db' = release_usage booking (promo_codes db)"
    by (rule cancel_booking_InrD)
  from find_release_usage [OF Cons.prems(1), of booking] pc obtain p' where
    f: "find (\<lambda>p. code p = c) (promo_codes db') = Some p'"
    and same: "PromoCode_id p' = PromoCode_id p" "usage_per_user p' = usage_per_user p"
    by auto
  from Cons.IH [OF f rest] obtain p2 where
    r: "find (\<lambda>p. code p = c) (promo_codes db2) = Some p2"
      "PromoCode_id p2 = PromoCode_id p'" "usage_per_user p2 = usage_per_user p'"
      "user_usage (bookings db2) p' u = user_usage (bookings db') p' u"
    by blast
  have "user_usage (bookings db2) p u = user_usage (bookings db') p u"
    using r(4) same(1) by (simp add: user_usage_def)
  with cancel_booking_user_usage [OF ca, of p u]
  have "user_usage (bookings db2) p u = user_usage (bookings db) p u" by simp
  with r same show ?case by simp
qed

lemma create_booking_ineligible:
  assumes "find (\<lambda>p. code p = c) (promo_codes db) = Some p" and "c \<noteq> []"
    and "check_user_eligibility (bookings db) p u = Some e"
  shows "\<exists>e'. create_booking now u t ids c db = (Inl e', db)"
proof (cases "create_booking now u t ids c db")
  case (Pair r db')
  show ?thesis
  proof (cases r)
    case (Inl e')
    with Pair create_booking_error_unchanged [of now u t ids c db e' db'] show ?thesis by simp
  next
    case (Inr b)
    with Pair have "create_booking now u t ids c db = (Inr b, db')" by simp
    from create_booking_with_code(7) [OF this assms(2,1)] assms(3) show ?thesis by simp
  qed
qed

lemma create_booking_reaches_eligibility:
  assumes "create_booking now u t ids [] db = (Inr b, d)"
    and "find (\<lambda>p. code p = c) (promo_codes db) = Some p" and "c \<noteq> []"
    and "is_valid now p = None"
    and "check_user_eligibility (bookings db) p u = Some e"
  shows "create_booking now u t ids c db = (Inl e, db)"
proof -
  from assms(1) obtain usr trip where h:
    "query_get User_id (users db) u = Some usr" "User_is_active usr"
    "validate_seat_selection ids = None"
    "query_get Trip_id (trips db) t = Some trip" "Trip_status trip = SCHEDULED"
    "\<not> departure_time trip < now"
    "length (filter (requested t ids) (seats db)) = length ids"
    "filter (\<lambda>s. Seat_status s \<noteq> AVAILABLE) (filter (requested t ids) (seats db)) = []"
    "\<not> available_seats trip < int (length ids)"
    by (rule create_booking_InrD)
  have "apply_promo now db u c sub = Inl e" for sub
    using assms(2-5) by (simp add: apply_promo_def)
  with h show ?thesis by (simp add: create_booking_def Let_def)
qed

text \<open>
  Claim C10. The eligibility check counts the bookings of the user that reference the
  code, whatever their status. Take a code with a per-user limit \<open>k\<close>. After the user has
  made at least \<open>k\<close> bookings with the code, and after any successful cancellations, the
  check refuses the user with a count of at least \<open>k\<close>, and a new booking request of the
  user with the code is answered with an error and writes nothing; the error is the
  eligibility error whenever the code is still valid and the same request without the
  code would succeed.
\<close>

theorem per_user_limit_counts_cancelled:
  assumes "find (\<lambda>p. code p = c) (promo_codes db) = Some p" and "c \<noteq> []"
    and "usage_per_user p = Some k"
    and "run_creates c reqs db = Some (bs, db1)"
    and "\<forall>(now', u', t', ids')\<in>set reqs. u' = u"
    and "k \<le> int (length reqs)"
    and "run_cancels cs db1 = Some db2"
  shows "\<exists>p2 n. find (\<lambda>p. code p = c) (promo_codes db2) = Some p2
           \<and> k \<le> n
           \<and> check_user_eligibility (bookings db2) p2 u = Some (PromoIneligible n)
           \<and> (\<exists>e. create_booking now u t ids c db2 = (Inl e, db2))
           \<and> (is_valid now p2 = None
                \<and> (\<exists>b d. create_booking now u t ids [] db2 = (Inr b, d))
               \<longrightarrow> create_booking now u t ids c db2 = (Inl (PromoIneligible n), db2))"
proof -
  let ?p1 = "p\<lparr> used_count := used_count p + int (length reqs) \<rparr>"
  from run_creates_used_count [OF assms(1,2,4)]
  have f1: "find (\<lambda>p. code p = c) (promo_codes db1) = Some ?p1" by blast
  have u1: "user_usage (bookings db1) p u = user_usage (bookings db) p u + int (length reqs)"
    by (rule run_creates_user_usage [OF assms(1,2,4,5)])
  from run_cancels_promo [OF f1 assms(7), of u] obtain p2 where
    p2: "find (\<lambda>p. code p = c) (promo_codes db2) = Some p2"
      "PromoCode_id p2 = PromoCode_id ?p1" "usage_per_user p2 = usage_per_user ?p1"
      "user_usage (bookings db2) ?p1 u = user_usage (bookings db1) ?p1 u"
    by blast
  define n where "n = user_usage (bookings db2) p2 u"
  have "n = user_usage (bookings db1) p u"
    using p2(2,4) by (simp add: n_def user_usage_def)
  moreover have "0 \<le> user_usage (bookings db) p u" by (simp add: user_usage_def)
  ultimately have kn: "k \<le> n" using u1 assms(6) by simp
  have el: "check_user_eligibility (bookings db2) p2 u = Some (PromoIneligible n)"
    using kn p2(3) assms(3) by (simp add: check_user_eligibility_def n_def)
  have fail: "\<exists>e. create_booking now u t ids c db2 = (Inl e, db2)"
    by (rule create_booking_ineligible [OF p2(1) assms(2) el])
  have reach: "is_valid now p2 = None \<and> (\<exists>b d. create_booking now u t ids [] db2 = (Inr b, d))
               \<longrightarrow> create_booking now u t ids c db2 = (Inl (PromoIneligible n), db2)"
    using create_booking_reaches_eligibility [OF _ p2(1) assms(2) _ el] by blast
  from p2(1) kn el fail reach show ?thesis by blast
qed

text \<open>
  The theorem on the example database: user 1 books seat 1 with HALF50 (limit 1 per
  user) and cancels; the only booking is cancelled, a request for seat 2 without the
  code would succeed, and with the code it is refused as ineligible.
\<close>

theorem per_user_limit_counts_cancelled_witness:
  "\<exists>bs db1 db2.
      find (\<lambda>p. code p = ''HALF50'') (promo_codes demo_db) = Some HALF50
    \<and> usage_per_user HALF50 = Some 1
    \<and> run_creates ''HALF50'' [(10, 1, 1, [1])] demo_db = Some (bs, db1)
    \<and> run_cancels [(20, 1, 1)] db1 = Some db2
    \<and> map booking_status (bookings db2) = [CANCELLED]
    \<and> (\<exists>b d. create_booking 30 1 1 [2] [] db2 = (Inr b, d))
    \<and> (\<exists>n. 1 \<le> n \<and> create_booking 30 1 1 [2] ''HALF50'' db2 = (Inl (PromoIneligible n), db2))"
proof -
  have f: "find (\<lambda>p. code p = ''HALF50'') (promo_codes demo_db) = Some HALF50"
    by (simp add: demo_eval)
  have k: "usage_per_user HALF50 = Some 1" by (simp add: HALF50_def)
  have "\<exists>bs db1 db2.
      run_creates ''HALF50'' [(10, 1, 1, [1])] demo_db = Some (bs, db1)
    \<and> run_cancels [(20, 1, 1)] db1 = Some db2
    \<and> map booking_status (bookings db2) = [CANCELLED]
    \<and> find (\<lambda>p. code p = ''HALF50'') (promo_codes db2) = Some HALF50
    \<and> (\<exists>b d. create_booking 30 1 1 [2] [] db2 = (Inr b, d))"
    by (simp add: op_eval demo_eval)
  then obtain bs db1 db2 where r:
    "run_creates ''HALF50'' [(10, 1, 1, [1])] demo_db = Some (bs, db1)"
    "run_cancels [(20, 1, 1)] db1 = Some db2"
    "map booking_status (bookings db2) = [CANCELLED]"
    "find (\<lambda>p. code p = ''HALF50'') (promo_codes db2) = Some HALF50"
    "\<exists>b d. create_booking 30 1 1 [2] [] db2 = (Inr b, d)"
    by (elim exE conjE) (rule that; (assumption | (intro exI, assumption)))
  have u: "\<forall>(now', u', t', ids')\<in>set [(10 :: int, 1 :: int, 1 :: int, [1 :: int])]. u' = 1"
    by simp
  have l: "(1 :: int) \<le> int (length [(10 :: int, 1 :: int, 1 :: int, [1 :: int])])" by simp
  from per_user_limit_counts_cancelled [OF f _ k r(1) u l r(2), of 30 1 "[2]"]
  obtain p2 n where t:
    "find (\<lambda>p. code p = ''HALF50'') (promo_codes db2) = Some p2" "1 \<le> n"
    "is_valid 30 p2 = None \<and> (\<exists>b d. create_booking 30 1 1 [2] [] db2 = (Inr b, d))
       \<longrightarrow> create_booking 30 1 1 [2] ''HALF50'' db2 = (Inl (PromoIneligible n), db2)"
    by auto
  from t(1) r(4) have "p2 = HALF50" by simp
  then have "is_valid 30 p2 = None" by (simp add: is_valid_def HALF50_def)
  with t(3) r(5) have "create_booking 30 1 1 [2] ''HALF50'' db2 = (Inl (PromoIneligible n), db2)"
    by blast
  with t(2) have fin: "\<exists>n. 1 \<le> n
      \<and> create_booking 30 1 1 [2] ''HALF50'' db2 = (Inl (PromoIneligible n), db2)"
    by blast
  show ?thesis
    apply (rule exI [of _ bs], rule exI [of _ db1], rule exI [of _ db2])
    apply (intro conjI)
          apply (rule f, rule k, rule r(1), rule r(2), rule r(3), rule r(5), rule fin)
    done
qed

section \<open>Seat back-references\<close>

lemma list_all_update_where:
  "list_all Q (update_where P f rows) = list_all (\<lambda>r. Q (if P r then f r else r)) rows"
  by (induction rows) (simp_all add: update_where_def)

lemma seat_backref_create:
  assumes "seat_backref_ok db"
  shows "seat_backref_ok (snd (create_booking now u t ids c db))"
proof (cases "create_booking now u t ids c db")
  case (Pair r db')
  show ?thesis
  proof (cases r)
    case (Inl e)
    with Pair create_booking_error_unchanged [of now u t ids c db e db'] assms
    show ?thesis by simp
  next
    case (Inr b)
    with Pair have cr: "create_booking now u t ids c db = (Inr b, db')" by simp
    then obtain trip promo discount where
      b: "b = new_booking db u t ids (request_subtotal db trip ids) promo discount"
      and db': "db' = reserve b t ids promo db"
      by (rule create_booking_InrD)
    have bid: "Booking_id b = next_id (map Booking_id (bookings db))"
      and bst: "booking_status b = CONFIRMED"
      by (simp_all add: b new_booking_fields)
    have look: "query_get Booking_id (bookings db') i
        = (if i = Booking_id b then Some b else query_get Booking_id (bookings db) i)" for i
      using bid by (simp add: db' reserve_fields query_get_append_fresh)
    have "seat_ok (bookings db')
            (if requested t ids s
             then s\<lparr> Seat_status := BOOKED, Seat_booking_id := Some (Booking_id b) \<rparr> else s)"
      if "seat_ok (bookings db) s" for s
      using that bst by (auto simp: seat_ok_def look split: option.splits)
    with assms have "list_all (\<lambda>s. seat_ok (bookings db')
            (if requested t ids s
             then s\<lparr> Seat_status := BOOKED, Seat_booking_id := Some (Booking_id b) \<rparr> else s))
          (seats db)"
      by (simp add: seat_backref_ok_def list_all_iff)
    moreover have "seats db' = update_where (requested t ids)
        (\<lambda>s. s\<lparr> Seat_status := BOOKED, Seat_booking_id := Some (Booking_id b) \<rparr>) (seats db)"
      by (simp add: db' reserve_fields)
    ultimately have "seat_backref_ok db'"
      by (simp only: seat_backref_ok_def list_all_update_where)
    with Pair show ?thesis by simp
  qed
qed

lemma seat_backref_cancel:
  assumes "seat_backref_ok db"
  shows "seat_backref_ok (snd (cancel_booking now u bid db))"
proof (cases "cancel_booking now u bid db")
  case (Pair r db')
  show ?thesis
  proof (cases r)
    case (Inl e)
    with Pair cancel_booking_error_unchanged [of now u bid db e db'] assms
    show ?thesis by simp
  next
    case (Inr b')
    with Pair have ca: "cancel_booking now u bid db = (Inr b', db')" by simp
    then have s': "seats db' = release_seats bid (seats db)"
      by (rule cancel_booking_InrD)
    note look = cancel_booking_lookup [OF ca]
    have "seat_ok (bookings db')
            (if Seat_booking_id s = Some bid
             then s\<lparr> Seat_status := AVAILABLE, Seat_booking_id := None \<rparr> else s)"
      if "seat_ok (bookings db) s" for s
    proof (cases "Seat_booking_id s = Some bid")
      case True
      then show ?thesis by (simp add: seat_ok_def)
    next
      case False
      show ?thesis
      proof (cases "Seat_booking_id s")
        case None
        with that show ?thesis by (simp add: seat_ok_def)
      next
        case (Some i)
        with False have ne: "i \<noteq> bid" by simp
        from that Some obtain x where x: "query_get Booking_id (bookings db) i = Some x"
          "booking_status x \<in> {PENDING, CONFIRMED, COMPLETED}"
          by (auto simp: seat_ok_def split: option.splits)
        then have "Booking_id x = i" by (auto dest: query_get_SomeD)
        with ne x have "query_get Booking_id (bookings db') i = Some x" by (simp add: look)
        with that Some False x(2) show ?thesis by (simp add: seat_ok_def)
      qed
    qed
    with assms have "list_all (\<lambda>s. seat_ok (bookings db')
            (if Seat_booking_id s = Some bid
             then s\<lparr> Seat_status := AVAILABLE, Seat_booking_id := None \<rparr> else s))
          (seats db)"
      by (simp add: seat_backref_ok_def list_all_iff)
    then have "seat_backref_ok db'"
      by (simp only: seat_backref_ok_def s' release_seats_def list_all_update_where)
    with Pair show ?thesis by simp
  qed
qed

lemma class_update_fields:
  assumes "class_update c = Inr f"
  shows "Seat_status (f s) = Seat_status s" "Seat_booking_id (f s) = Seat_booking_id s"
  using assms by (auto simp: class_update_def split: option.splits)

lemma multiplier_update_fields:
  assumes "multiplier_update m = Inr f"
  shows "Seat_status (f s) = Seat_status s" "Seat_booking_id (f s) = Seat_booking_id s"
  using assms by (auto simp: multiplier_update_def split: option.splits if_splits)

lemma status_update_None:
  assumes "status_update seat None = Inr f"
  shows "f s = s"
  using assms by (auto simp: status_update_def)

lemma status_update_Some:
  assumes "status_update seat (Some str) = Inr f"
  obtains ns where "SeatStatus_of str = Some ns"
    "\<not> (Seat_status seat = BOOKED \<and> truthy (Seat_booking_id seat))"
    "f = (\<lambda>s. s\<lparr> Seat_status := ns \<rparr>)"
  using assms by (auto simp: status_update_def split: option.splits if_splits)

lemma SeatStatus_of_not_booked:
  "SeatStatus_of str = Some ns \<Longrightarrow> str \<noteq> ''booked'' \<Longrightarrow> ns \<noteq> BOOKED"
  by (auto simp: SeatStatus_of_def split: if_splits)

lemma update_seat_error_unchanged:
  "update_seat t sid cls mult st db = (Inl e, db') \<Longrightarrow> db' = db"
  by (auto simp: update_seat_def Let_def split: option.splits sum.splits if_splits)

lemma update_seat_InrD:
  assumes "update_seat t sid cls mult st db = (Inr s', db')"
  obtains seat upd1 upd2 upd3 where
    "find (\<lambda>s. Seat_id s = sid \<and> Seat_trip_id s = t) (seats db) = Some seat"
    "class_update cls = Inr upd1" "multiplier_update mult = Inr upd2"
    "status_update seat st = Inr upd3"
    "db' = db\<lparr> seats := update_where (\<lambda>s. Seat_id s = sid \<and> Seat_trip_id s = t)
                  (\<lambda>s. upd3 (upd2 (upd1 s))) (seats db) \<rparr>"
  using assms
  by (auto simp: update_seat_def Let_def split: option.splits sum.splits if_splits)

lemma find_unique_key:
  assumes "distinct (map Seat_id rows)" and "find P rows = Some seat"
    and "s \<in> set rows" and "Seat_id s = Seat_id seat"
  shows "s = seat"
proof -
  from assms(2) have "seat \<in> set rows" by (auto simp: find_Some_iff in_set_conv_nth)
  with assms(1,3,4) show ?thesis by (meson distinct_map inj_onD)
qed

lemma seat_backref_update_seat:
  assumes "seat_backref_ok db" and "seat_keys db" and "booking_keys_positive db"
    and "st \<noteq> Some ''booked''"
  shows "seat_backref_ok (snd (update_seat t sid cls mult st db))"
proof (cases "update_seat t sid cls mult st db")
  case (Pair r db')
  show ?thesis
  proof (cases r)
    case (Inl e)
    with Pair update_seat_error_unchanged [of t sid cls mult st db e db'] assms(1)
    show ?thesis by simp
  next
    case (Inr s')
    with Pair have us: "update_seat t sid cls mult st db = (Inr s', db')" by simp
    then obtain seat upd1 upd2 upd3 where
      f: "find (\<lambda>s. Seat_id s = sid \<and> Seat_trip_id s = t) (seats db) = Some seat"
      and u1: "class_update cls = Inr upd1" and u2: "multiplier_update mult = Inr upd2"
      and u3: "status_update seat st = Inr upd3"
      and db': "db' = db\<lparr> seats := update_where (\<lambda>s. Seat_id s = sid \<and> Seat_trip_id s = t)
                  (\<lambda>s. upd3 (upd2 (upd1 s))) (seats db) \<rparr>"
      by (rule update_seat_InrD)
    from f have sk: "Seat_id seat = sid" by (auto simp: find_Some_iff)
    have inner: "Seat_status (upd2 (upd1 s)) = Seat_status s"
      "Seat_booking_id (upd2 (upd1 s)) = Seat_booking_id s" for s
      by (simp_all add: class_update_fields [OF u1] multiplier_update_fields [OF u2])
    have step: "seat_ok (bookings db) (upd3 (upd2 (upd1 seat)))"
      if ok: "seat_ok (bookings db) seat"
    proof (cases st)
      case None
      with u3 have "upd3 (upd2 (upd1 seat)) = upd2 (upd1 seat)" by (simp add: status_update_None)
      with ok inner show ?thesis by (simp add: seat_ok_def)
    next
      case (Some str)
      with u3 obtain ns where ns: "SeatStatus_of str = Some ns"
        and guard: "\<not> (Seat_status seat = BOOKED \<and> truthy (Seat_booking_id seat))"
        and upd3: "upd3 = (\<lambda>s. s\<lparr> Seat_status := ns \<rparr>)"
        by (auto elim: status_update_Some)
      from ns Some assms(4) have nb: "ns \<noteq> BOOKED" by (auto dest: SeatStatus_of_not_booked)
      have free: "Seat_booking_id seat = None"
      proof (cases "Seat_booking_id seat")
        case None
        then show ?thesis .
      next
        case (Some i)
        with ok have booked: "Seat_status seat = BOOKED" by (simp add: seat_ok_def)
        with guard Some have "i = 0" by simp
        moreover from ok Some obtain x where "query_get Booking_id (bookings db) i = Some x"
          by (auto simp: seat_ok_def split: option.splits)
        then have "x \<in> set (bookings db)" "Booking_id x = i" by (auto dest: query_get_SomeD)
        with assms(3) have "i \<noteq> 0" by (auto simp: booking_keys_positive_def list_all_iff)
        ultimately show ?thesis by simp
      qed
      with nb inner show ?thesis by (simp add: seat_ok_def upd3)
    qed
    have "seat_ok (bookings db)
            (if Seat_id s = sid \<and> Seat_trip_id s = t then upd3 (upd2 (upd1 s)) else s)"
      if m: "s \<in> set (seats db)" and ok: "seat_ok (bookings db) s" for s
    proof (cases "Seat_id s = sid \<and> Seat_trip_id s = t")
      case True
      with find_unique_key [OF _ f m] assms(2) sk have "s = seat" by (simp add: seat_keys_def)
      with True step ok show ?thesis by simp
    next
      case False
      then have "(if Seat_id s = sid \<and> Seat_trip_id s = t then upd3 (upd2 (upd1 s)) else s) = s"
        by (rule if_not_P)
      with ok show ?thesis by (simp only:)
    qed
    with assms(1) have "list_all (\<lambda>s. seat_ok (bookings db)
            (if Seat_id s = sid \<and> Seat_trip_id s = t then upd3 (upd2 (upd1 s)) else s))
          (seats db)"
      by (simp add: seat_backref_ok_def list_all_iff)
    then have "seat_backref_ok db'"
      by (simp add: seat_backref_ok_def db' list_all_update_where)
    with Pair show ?thesis by simp
  qed
qed

lemma update_seat_in_use:
  assumes "find (\<lambda>s. Seat_id s = sid \<and> Seat_trip_id s = t) (seats db) = Some seat"
    and "Seat_status seat = BOOKED" and "Seat_booking_id seat = Some i" and "i \<noteq> 0"
  shows "\<exists>e. update_seat t sid cls mult (Some str) db = (Inl e, db)"
  using assms
  by (auto simp: update_seat_def status_update_def Let_def split: sum.splits option.splits)

text \<open>
  Claim C8, amended. A seat is in order when its back-reference is set exactly if its
  status is booked and the booking it refers to exists and is pending, confirmed or
  completed. If every seat is in order, then every seat is in order after a
  \<^verbatim>\<open>create_booking\<close> request and after a \<^verbatim>\<open>cancel_booking\<close> request, whatever
  their answer; and after an \<^verbatim>\<open>update_seat\<close> request that does not ask for the status
  booked, provided seat keys are unique and no booking has the key 0 (as autoincrement
  keys are).
\<close>

theorem seat_backref_preserved:
  assumes "seat_backref_ok db"
  shows "seat_backref_ok (snd (create_booking now u t ids c db))
       \<and> seat_backref_ok (snd (cancel_booking now u bid db))
       \<and> (seat_keys db \<and> booking_keys_positive db \<and> st \<noteq> Some ''booked''
            \<longrightarrow> seat_backref_ok (snd (update_seat t sid cls mult st db)))"
  using assms
  by (simp add: seat_backref_create seat_backref_cancel seat_backref_update_seat)

text \<open>
  The theorem on the example database: user 1 books seats 1 and 2; from there the
  booking is cancelled, or seat 3 is blocked by the administrator. A status change of
  the booked seat 1 is refused.
\<close>

theorem seat_backref_preserved_witness:
  "seat_backref_ok demo_db
   \<and> (let db1 = snd (create_booking 10 1 1 [1, 2] [] demo_db);
          db2 = snd (cancel_booking 20 1 1 db1);
          db3 = snd (update_seat 1 3 None None (Some ''blocked'') db1)
      in seat_backref_ok db1 \<and> seat_backref_ok db2 \<and> seat_backref_ok db3
       \<and> seat_keys db1 \<and> booking_keys_positive db1
       \<and> map Seat_status (seats db1) = [BOOKED, BOOKED, AVAILABLE]
       \<and> map Seat_booking_id (seats db1) = [Some 1, Some 1, None]
       \<and> map Seat_status (seats db2) = [AVAILABLE, AVAILABLE, AVAILABLE]
       \<and> map Seat_status (seats db3) = [BOOKED, BOOKED, BLOCKED]
       \<and> fst (update_seat 1 1 None None (Some ''available'') db1) = Inl SeatInUse)"
proof -
  let ?db1 = "snd (create_booking 10 1 1 [1, 2] [] demo_db)"
  have d: "seat_backref_ok demo_db"
    by (simp add: seat_backref_ok_def seat_ok_def demo_eval)
  have k: "seat_keys ?db1" "booking_keys_positive ?db1"
    "map Seat_status (seats ?db1) = [BOOKED, BOOKED, AVAILABLE]"
    "map Seat_booking_id (seats ?db1) = [Some 1, Some 1, None]"
    by (simp_all add: op_eval demo_eval seat_keys_def booking_keys_positive_def)
  have e: "map Seat_status (seats (snd (cancel_booking 20 1 1 ?db1)))
             = [AVAILABLE, AVAILABLE, AVAILABLE]"
    "map Seat_status (seats (snd (update_seat 1 3 None None (Some ''blocked'') ?db1)))
             = [BOOKED, BOOKED, BLOCKED]"
    "fst (update_seat 1 1 None None (Some ''available'') ?db1) = Inl SeatInUse"
    by (simp_all add: op_eval demo_eval)
  from seat_backref_preserved [OF d, where now = 10 and u = 1 and t = 1 and ids = "[1, 2]" and c = "[]"]
  have one: "seat_backref_ok ?db1" by (rule conjunct1)
  from seat_backref_preserved [OF one, where now = 20 and u = 1 and bid = 1]
  have two: "seat_backref_ok (snd (cancel_booking 20 1 1 ?db1))" by (rule conjunct1 [OF conjunct2])
  from seat_backref_preserved [OF one, where st = "Some ''blocked''" and t = 1 and sid = 3
      and cls = None and mult = None] k(1,2)
  have three: "seat_backref_ok (snd (update_seat 1 3 None None (Some ''blocked'') ?db1))" by simp
  from d one two three k e show ?thesis by (simp only: Let_def simp_thms)
qed

text \<open>
  Claim C8 as stated does not hold for \<^verbatim>\<open>update_seat\<close>: the status booked is one of the
  three values the route accepts, and the refusal only protects a seat that is booked
  and has a back-reference. Asking for booked on the free seat 3 succeeds and leaves a
  booked seat with a null back-reference.
\<close>

theorem update_seat_booked_counterexample:
  "seat_backref_ok demo_db \<and> seat_keys demo_db \<and> booking_keys_positive demo_db
   \<and> fst (update_seat 1 3 None None (Some ''booked'') demo_db)
       = Inr \<lparr> Seat_id = 3, seat_number = ''A3'', seat_class = ECONOMY, Seat_status = BOOKED,
               price_multiplier = 1, Seat_trip_id = 1, Seat_booking_id = None \<rparr>
   \<and> map Seat_status (seats (snd (update_seat 1 3 None None (Some ''booked'') demo_db)))
       = [AVAILABLE, AVAILABLE, BOOKED]
   \<and> map Seat_booking_id (seats (snd (update_seat 1 3 None None (Some ''booked'') demo_db)))
       = [None, None, None]
   \<and> \<not> seat_backref_ok (snd (update_seat 1 3 None None (Some ''booked'') demo_db))"
  by (simp add: op_eval demo_eval seat_backref_ok_def seat_ok_def seat_keys_def
      booking_keys_positive_def)

section \<open>Re-activation of a cancelled booking\<close>

text \<open>
  Claim C5 on the code. User 1 books the three seats of the trip and cancels; user 2 books
  the same seats; the administrator then sets the first booking back to confirmed.
  Cancelling cleared the back-references of the seats, so the relationship
  \<^verbatim>\<open>booking.seats\<close> of the cancelled booking is empty: the check counts 0 available
  seats among 0, the update succeeds, no seat is touched (all three stay with booking
  2), and the counter goes from 0 to -3.
\<close>

theorem reactivation_ignores_held_seats:
  "(let db1 = snd (create_booking 10 1 1 [1, 2, 3] [] demo_db);
        db2 = snd (cancel_booking 20 1 1 db1);
        db3 = snd (create_booking 30 2 1 [1, 2, 3] [] db2);
        (r, db4) = update_booking_status 1 ''confirmed'' db3
    in map booking_status (bookings db3) = [CANCELLED, CONFIRMED]
     \<and> map Seat_status (seats db3) = [BOOKED, BOOKED, BOOKED]
     \<and> map Seat_booking_id (seats db3) = [Some 2, Some 2, Some 2]
     \<and> map available_seats (trips db3) = [0]
     \<and> (\<exists>b. r = Inr b \<and> booking_status b = CONFIRMED \<and> num_seats b = 3)
     \<and> map booking_status (bookings db4) = [CONFIRMED, CONFIRMED]
     \<and> seats db4 = seats db3
     \<and> map available_seats (trips db4) = [- 3])"
  by (simp add: op_eval demo_eval)

text \<open>
  Claim C1 on the code. The counter invariant holds in the example database, after a
  booking of seat 1 and after its cancellation. The administrator then sets the booking
  back to confirmed: the update succeeds, every seat is still available, and the counter
  drops to 2 of 3 seats, so the invariant no longer holds.
\<close>

theorem reactivation_breaks_counter:
  "counter_ok demo_db \<and>
   (let db1 = snd (create_booking 10 1 1 [1] [] demo_db);
        db2 = snd (cancel_booking 20 1 1 db1);
        (r, db3) = update_booking_status 1 ''confirmed'' db2
    in counter_ok db1 \<and> counter_ok db2
     \<and> (\<exists>b. r = Inr b \<and> booking_status b = CONFIRMED)
     \<and> map Seat_status (seats db3) = [AVAILABLE, AVAILABLE, AVAILABLE]
     \<and> map available_seats (trips db3) = [2]
     \<and> map total_seats (trips db3) = [3]
     \<and> booked_count db3 1 = 0
     \<and> \<not> counter_ok db3)"
  by (simp add: op_eval demo_eval counter_ok_def booked_count_def)

section \<open>Payment status of a cancelled booking\<close>

text \<open>
  The caller's own route refuses any payment update of a cancelled booking and writes
  nothing.
\<close>

lemma update_payment_status_cancelled:
  assumes "query_get Booking_id (bookings db) booking_id = Some b"
    and "booking_status b = CANCELLED"
  shows "\<exists>e. update_payment_status u booking_id s db = (Inl e, db)"
  using assms by (simp add: update_payment_status_def)

text \<open>
  Claim C6 on the code. User 1 books seat 1, opens a payment attempt and cancels the
  booking, which is then cancelled and unpaid. The caller's route refuses to mark it
  paid. The administrator's route marks it paid, and so does the gateway success of the
  attempt opened before the cancellation: in both cases the booking ends cancelled and
  paid.
\<close>

theorem cancelled_booking_marked_paid:
  "(let db1 = snd (create_booking 10 1 1 [1] [] demo_db);
        db2 = snd (initiate_payment 1 1 db1);
        db3 = snd (cancel_booking 20 1 1 db2)
    in map booking_status (bookings db3) = [CANCELLED]
     \<and> map payment_status (bookings db3) = [UNPAID]
     \<and> update_payment_status 1 1 ''paid'' db3 = (Inl BookingCancelled, db3)
     \<and> map payment_status (bookings (snd (admin_update_payment_status 1 ''paid'' db3))) = [PAID]
     \<and> map booking_status (bookings (snd (admin_update_payment_status 1 ''paid'' db3))) = [CANCELLED]
     \<and> map payment_status (bookings (snd (process_payment 1 1 True db3))) = [PAID]
     \<and> map booking_status (bookings (snd (process_payment 1 1 True db3))) = [CANCELLED])"
  by (simp add: op_eval demo_eval)

end
